theory Spec2Isabelle
  imports Complex_Main "HOL-Library.Sublist"
begin

section \<open>Text\<close>

text \<open>
  A Python \<open>str\<close> is a sequence of Unicode code points. It is modelled as a list of
  natural numbers, one per code point; \<open>lit\<close> turns an ASCII literal of the source into
  that form.
\<close>

type_synonym pystr = "nat list"

definition lit :: "string \<Rightarrow> pystr" where
  "lit s = map of_char s"

definition dquote :: nat where
  "dquote = 34"

definition slash :: nat where
  "slash = 47"

definition backslash :: nat where
  "backslash = 92"

text \<open>\<open>p in s\<close> for strings: \<open>p\<close> occurs in \<open>s\<close> as a contiguous block.\<close>

fun contains :: "pystr \<Rightarrow> pystr \<Rightarrow> bool" where
  "contains p [] = (p = [])"
| "contains p (c # s) = (prefix p (c # s) \<or> contains p s)"

text \<open>
  \<open>href.replace("\\/", "/")\<close>: every occurrence of the two characters backslash, slash
  is replaced by a slash, scanning from the left without overlaps.
\<close>

fun unescape :: "pystr \<Rightarrow> pystr" where
  "unescape (a # b # s) =
     (if a = backslash \<and> b = slash then slash # unescape s else a # unescape (b # s))"
| "unescape s = s"

section \<open>Regular expressions of the source\<close>

text \<open>Matching a literal piece of a pattern at the start of the input; the result is the rest.\<close>

definition match_lit :: "pystr \<Rightarrow> pystr \<Rightarrow> pystr option" where
  "match_lit p s = (if prefix p s then Some (drop (length p) s) else None)"

text \<open>
  The pattern of line 151 is the raw string \<open>href="(https?:\\/\\/[^\"]+)"\<close>. In a raw
  string the regular expression \<open>\\/\<close> is a literal backslash followed by a slash, so the
  scheme separator the pattern accepts is colon, backslash, slash, backslash, slash.

  \<open>href_tail\<close> matches the part \<open>:\\/\\/[^\"]+"\<close>. The class \<open>[^\"]+\<close> is greedy: it
  takes the longest run of characters other than the double quote. A shorter run cannot
  succeed, because the character after it would be one of the run, not a double quote.
\<close>

definition href_tail :: "pystr \<Rightarrow> pystr option" where
  "href_tail s =
     (case match_lit [58, backslash, slash, backslash, slash] s of
        None \<Rightarrow> None
      | Some r \<Rightarrow>
          if takeWhile (\<lambda>c. c \<noteq> dquote) r = [] then None
          else match_lit [dquote] (dropWhile (\<lambda>c. c \<noteq> dquote) r))"

text \<open>
  One attempt of the whole pattern at the start of the input: the captured group and the
  input after the match. The optional \<open>s\<close> is tried first (greedy) and the pattern falls
  back to the branch without it.
\<close>

definition href_at :: "pystr \<Rightarrow> (pystr \<times> pystr) option" where
  "href_at s =
     (case match_lit (lit ''href='' @ [dquote]) s of
        None \<Rightarrow> None
      | Some v \<Rightarrow>
          (case match_lit (lit ''http'') v of
             None \<Rightarrow> None
           | Some r \<Rightarrow>
               (case (case match_lit (lit ''s'') r of
                        None \<Rightarrow> None
                      | Some r1 \<Rightarrow> href_tail r1) of
                  Some rest \<Rightarrow> Some (take (length v - length rest - 1) v, rest)
                | None \<Rightarrow>
                    (case href_tail r of
                       None \<Rightarrow> None
                     | Some rest \<Rightarrow> Some (take (length v - length rest - 1) v, rest)))))"

text \<open>
  \<open>re.findall\<close>: the input is scanned from the left; a match contributes its group and the
  scan goes on after the match, a failed attempt moves one character on.
\<close>

function findall_href :: "pystr \<Rightarrow> pystr list" where
  "findall_href [] = []"
| "findall_href (c # s) =
     (case href_at (c # s) of
        Some (g, rest) \<Rightarrow> g # findall_href rest
      | None \<Rightarrow> findall_href s)"
  by pat_completeness auto
termination
proof (relation "measure length")
  show "wf (measure length)" by simp
next
  fix c :: nat and s :: pystr and x2 :: "pystr \<times> pystr" and x y :: pystr
  assume h: "href_at (c # s) = Some x2" and x2: "(x, y) = x2"
  have lit_len: "length b \<le> length a" if "match_lit p a = Some b" for p a b
    using that by (auto simp: match_lit_def split: if_splits)
  have tail: "length b < length a" if t: "href_tail a = Some b" for a b
  proof -
    from t obtain r where r: "match_lit [58, backslash, slash, backslash, slash] a = Some r"
      and b: "match_lit [dquote] (dropWhile (\<lambda>c. c \<noteq> dquote) r) = Some b"
      by (simp add: href_tail_def split: option.splits if_splits)
    from r have "length r < length a"
      by (auto simp: match_lit_def prefix_def split: if_splits)
    moreover from b have "length b \<le> length (dropWhile (\<lambda>c. c \<noteq> dquote) r)"
      by (rule lit_len)
    moreover have "length (dropWhile (\<lambda>c. c \<noteq> dquote) r) \<le> length r"
      by (rule length_dropWhile_le)
    ultimately show ?thesis by linarith
  qed
  from h x2 obtain v r where v: "match_lit (lit ''href='' @ [dquote]) (c # s) = Some v"
    and r: "match_lit (lit ''http'') v = Some r"
    and y: "(\<exists>r1. match_lit (lit ''s'') r = Some r1 \<and> href_tail r1 = Some y) \<or> href_tail r = Some y"
    by (auto simp: href_at_def split: option.splits)
  from y have "length y < length r"
    using tail lit_len by (metis le_less_trans not_le order.strict_trans)
  with lit_len [OF r] lit_len [OF v] have "length y < length (c # s)" by linarith
  then show "(y, c # s) \<in> measure length" by simp
next
  fix c :: nat and s :: pystr
  assume "href_at (c # s) = None"
  show "(s, c # s) \<in> measure length" by simp
qed

section \<open>Link extraction (lines 150 to 164)\<close>

definition is_youtube :: "pystr \<Rightarrow> bool" where
  "is_youtube href =
     (contains (lit ''youtube.com/watch'') href \<or> contains (lit ''youtu.be/'') href)"

text \<open>The loop of lines 152 to 156, with the list \<open>yt_links\<close> it appends to.\<close>

fun yt_loop :: "pystr list \<Rightarrow> pystr list \<Rightarrow> pystr list" where
  "yt_loop yt_links [] = yt_links"
| "yt_loop yt_links (href # links) =
     (let href' = unescape href
      in if is_youtube href' then yt_loop (yt_links @ [href']) links
         else yt_loop yt_links links)"

text \<open>The loop of lines 158 to 163, with the set \<open>seen\<close> and the list \<open>ordered\<close>.\<close>

fun dedupe_loop :: "pystr set \<Rightarrow> pystr list \<Rightarrow> pystr list \<Rightarrow> pystr list" where
  "dedupe_loop seen ordered [] = ordered"
| "dedupe_loop seen ordered (l # ls) =
     (if l \<notin> seen then dedupe_loop (insert l seen) (ordered @ [l]) ls
      else dedupe_loop seen ordered ls)"

definition extract_links :: "pystr \<Rightarrow> pystr list" where
  "extract_links html = take 3 (dedupe_loop {} [] (yt_loop [] (findall_href html)))"

section \<open>Video identifiers (\<open>extract_youtube_id\<close>)\<close>

text \<open>
  On a \<open>str\<close>, \<open>\w\<close> matches the ASCII letters, digits and underscore, and the
  alphanumeric characters of Unicode beyond ASCII. The table of the latter belongs to the
  interpreter and is a parameter \<open>uw\<close> of the model.
\<close>

definition is_word :: "(nat \<Rightarrow> bool) \<Rightarrow> nat \<Rightarrow> bool" where
  "is_word uw c =
     ((48 \<le> c \<and> c \<le> 57) \<or> (65 \<le> c \<and> c \<le> 90) \<or> (97 \<le> c \<and> c \<le> 122) \<or> c = 95
      \<or> (128 \<le> c \<and> uw c))"

text \<open>The class \<open>[\w-]\<close>.\<close>

definition is_tok :: "(nat \<Rightarrow> bool) \<Rightarrow> nat \<Rightarrow> bool" where
  "is_tok uw c = (is_word uw c \<or> c = 45)"

text \<open>
  One attempt of a pattern \<open>m([\w-]{6,})\<close> at the start of the input, for a literal
  marker \<open>m\<close>. The repetition is greedy and nothing follows it in the pattern, so the group
  is the longest run of class characters and the attempt succeeds when that run has 6
  characters or more.
\<close>

definition id_at :: "(nat \<Rightarrow> bool) \<Rightarrow> pystr \<Rightarrow> pystr \<Rightarrow> pystr option" where
  "id_at uw m s =
     (case match_lit m s of
        None \<Rightarrow> None
      | Some r \<Rightarrow>
          (let g = takeWhile (is_tok uw) r in if 6 \<le> length g then Some g else None))"

text \<open>\<open>re.search\<close> followed by \<open>group(1)\<close>: the leftmost position where the attempt succeeds.\<close>

fun search_id :: "(nat \<Rightarrow> bool) \<Rightarrow> pystr \<Rightarrow> pystr \<Rightarrow> pystr option" where
  "search_id uw m [] = id_at uw m []"
| "search_id uw m (c # s) =
     (case id_at uw m (c # s) of
        Some g \<Rightarrow> Some g
      | None \<Rightarrow> search_id uw m s)"

text \<open>
  \<open>extract_youtube_id\<close>, lines 93 to 107. The three searches are total on strings, so the
  handler of line 105 is never entered; the function returns \<open>None\<close> or the identifier.
\<close>

definition extract_youtube_id :: "(nat \<Rightarrow> bool) \<Rightarrow> pystr \<Rightarrow> pystr option" where
  "extract_youtube_id uw url =
     (case search_id uw (lit ''youtu.be/'') url of
        Some short_match \<Rightarrow> Some short_match
      | None \<Rightarrow>
          (case search_id uw (lit ''v='') url of
             Some id_match \<Rightarrow> Some id_match
           | None \<Rightarrow>
               (case search_id uw (lit ''/embed/'') url of
                  Some embed_match \<Rightarrow> Some embed_match
                | None \<Rightarrow> None)))"

text \<open>
  What a search of lines 96 to 102 looks for: the marker \<open>m\<close> standing anywhere in the
  link, directly followed by at least 6 characters of the class \<open>[\w-]\<close>. The marker is a
  plain piece of text: \<open>v=\<close> also stands at the end of \<open>rev=\<close>, and \<open>youtu.be/\<close> at the end
  of \<open>notyoutu.be/\<close>.
\<close>

definition marker_token :: "(nat \<Rightarrow> bool) \<Rightarrow> pystr \<Rightarrow> pystr \<Rightarrow> bool" where
  "marker_token uw m link =
     (\<exists>pre tok rest. link = pre @ m @ tok @ rest \<and> 6 \<le> length tok
        \<and> (\<forall>c\<in>set tok. is_tok uw c))"

text \<open>
  Deduplication as the specification words it: by exact equality, keeping the first
  occurrence of every string, in the order of the first occurrences.
\<close>

primrec first_seen :: "'a list \<Rightarrow> 'a list" where
  "first_seen [] = []"
| "first_seen (x # xs) = x # filter (\<lambda>y. y \<noteq> x) (first_seen xs)"

section \<open>Notation for the statements about hrefs\<close>

text \<open>
  The attribute \<open>href="u"\<close> as it stands in a page, the scheme separator with escaped
  slashes, and the escaping of every slash of a URL by a backslash (the inverse of the
  replacement of line 154). They are used to write pages and hrefs in the statements.
\<close>

definition href_attr :: "pystr \<Rightarrow> pystr" where
  "href_attr u = lit ''href='' @ [dquote] @ u @ [dquote]"

definition esc_sep :: pystr where
  "esc_sep = [58, backslash, slash, backslash, slash]"

definition escape :: "pystr \<Rightarrow> pystr" where
  "escape s = concat (map (\<lambda>c. if c = slash then [backslash, slash] else [c]) s)"

text \<open>
  The values the pattern of line 151 accepts between the quotes: \<open>http\<close> or \<open>https\<close>, the
  escaped separator, and at least one character, none of them a double quote.
\<close>

definition escaped_url :: "pystr \<Rightarrow> bool" where
  "escaped_url u =
     (\<exists>sch body. (sch = lit ''http'' \<or> sch = lit ''https'') \<and> u = sch @ esc_sep @ body
        \<and> body \<noteq> [] \<and> dquote \<notin> set body)"

section \<open>Python values and errors\<close>

text \<open>
  The exceptions the modelled code can meet. \<open>HTTPException\<close> carries the status code and
  the detail text of the response the framework sends.
\<close>

datatype error =
    RequestException
  | HTTPError
  | JSONDecodeError
  | AttributeError
  | KeyError
  | IndexError
  | TypeError
  | ValueError
  | OverflowError
  | ValidationError
  | HTTPException nat pystr

definition and_then :: "error + 'a \<Rightarrow> ('a \<Rightarrow> error + 'b) \<Rightarrow> error + 'b" where
  "and_then m f = (case m of Inl e \<Rightarrow> Inl e | Inr x \<Rightarrow> f x)"

text \<open>A Python float: a finite value (a rational number), an infinity or a NaN.\<close>

datatype pyfloat = Finite rat | Infinity bool | NaN

text \<open>The values \<open>resp.json()\<close> can return. A dict is written as its list of items.\<close>

datatype json =
    JNull
  | JBool bool
  | JInt int
  | JFloat pyfloat
  | JStr pystr
  | JList "json list"
  | JDict "(pystr \<times> json) list"

text \<open>Truth value of a Python value, as \<open>if x\<close> and \<open>not x\<close> test it.\<close>

fun truthy :: "json \<Rightarrow> bool" where
  "truthy JNull = False"
| "truthy (JBool b) = b"
| "truthy (JInt i) = (i \<noteq> 0)"
| "truthy (JFloat f) = (f \<noteq> Finite 0)"
| "truthy (JStr s) = (s \<noteq> [])"
| "truthy (JList xs) = (xs \<noteq> [])"
| "truthy (JDict kvs) = (kvs \<noteq> [])"

text \<open>\<open>x.get(k, default)\<close>: only a dict has the method.\<close>

fun py_get :: "json \<Rightarrow> pystr \<Rightarrow> json \<Rightarrow> error + json" where
  "py_get (JDict kvs) k dflt = Inr (case map_of kvs k of None \<Rightarrow> dflt | Some v \<Rightarrow> v)"
| "py_get x k dflt = Inl AttributeError"

text \<open>\<open>x[k]\<close> for a string key \<open>k\<close>.\<close>

fun py_getitem :: "json \<Rightarrow> pystr \<Rightarrow> error + json" where
  "py_getitem (JDict kvs) k = (case map_of kvs k of None \<Rightarrow> Inl KeyError | Some v \<Rightarrow> Inr v)"
| "py_getitem x k = Inl TypeError"

text \<open>\<open>x[0]\<close>. The keys of a dict that comes from JSON are strings, so \<open>0\<close> is never a key.\<close>

fun py_index0 :: "json \<Rightarrow> error + json" where
  "py_index0 (JList []) = Inl IndexError"
| "py_index0 (JList (x # xs)) = Inr x"
| "py_index0 (JStr []) = Inl IndexError"
| "py_index0 (JStr (c # s)) = Inr (JStr [c])"
| "py_index0 (JDict kvs) = Inl KeyError"
| "py_index0 x = Inl TypeError"

section \<open>The outside world\<close>

text \<open>
  What \<open>requests.get\<close> gives: a failure of the request itself, or a response with its
  status code, its text, and the value its body parses to as JSON (\<open>None\<close> when the body
  is not JSON).
\<close>

datatype http_result = NetworkError | Response nat pystr "json option"

text \<open>
  The environment of a run: the answer of the network to the \<open>n\<close>-th outbound request,
  the reading of the clock at its \<open>n\<close>-th reading, the validator of the \<open>HttpUrl\<close> type
  of the pydantic library, and what the interpreter brings: the Unicode table behind
  \<open>\w\<close>, the Unicode tables of decimal digits (with their values 0 to 9) and of
  whitespace, both consulted for code points from 127 on, and the limit on the number of
  digits of a decimal string that \<open>int\<close> converts (0 when there is no limit).
\<close>

record env =
  http :: "nat \<Rightarrow> pystr \<Rightarrow> http_result"
  clock :: "nat \<Rightarrow> nat"
  url_ok :: "pystr \<Rightarrow> bool"
  uword :: "nat \<Rightarrow> bool"
  udecimal :: "nat \<Rightarrow> nat option"
  uspace :: "nat \<Rightarrow> bool"
  max_str_digits :: nat

section \<open>The conversion \<open>int\<close>\<close>

text \<open>
  \<open>int(s)\<close> for a string, in the steps of the interpreter. A string with a code point
  beyond ASCII is first brought to ASCII: code points below 127 stay, a Unicode space
  becomes a blank, a Unicode decimal digit becomes the ASCII digit of its value, and any
  other code point becomes a question mark (the interpreter also cuts the string after
  it; the conversion fails either way). An ASCII string is taken as it is.
\<close>

definition to_ascii :: "env \<Rightarrow> pystr \<Rightarrow> pystr" where
  "to_ascii e s =
     (if list_all (\<lambda>c. c < 128) s then s
      else map (\<lambda>c. if c < 127 then c
                    else if uspace e c then 32
                    else (case udecimal e c of None \<Rightarrow> 63 | Some d \<Rightarrow> 48 + d)) s)"

text \<open>
  The ASCII string is then read as: whitespace (tab, line feed, vertical tab, form feed,
  carriage return, blank), one optional sign, decimal digits where single underscores may
  separate digits, whitespace. More digits than the limit allows raise \<open>ValueError\<close> as
  well; the interpreter applies the limit above 640 digits only.
\<close>

definition is_space :: "nat \<Rightarrow> bool" where
  "is_space c = (c \<in> {9, 10, 11, 12, 13, 32})"

definition is_digit :: "nat \<Rightarrow> bool" where
  "is_digit c = (48 \<le> c \<and> c \<le> 57)"

fun digits_value :: "nat \<Rightarrow> pystr \<Rightarrow> nat option" where
  "digits_value acc [] = None"
| "digits_value acc (c # s) =
     (if \<not> is_digit c then None
      else case s of
             [] \<Rightarrow> Some (acc * 10 + (c - 48))
           | d # s' \<Rightarrow>
               if d = 95 then digits_value (acc * 10 + (c - 48)) s'
               else digits_value (acc * 10 + (c - 48)) s)"

definition too_many_digits :: "env \<Rightarrow> pystr \<Rightarrow> bool" where
  "too_many_digits e ds =
     (640 < length (filter is_digit ds) \<and> 0 < max_str_digits e
      \<and> max_str_digits e < length (filter is_digit ds))"

definition signed_value :: "env \<Rightarrow> bool \<Rightarrow> pystr \<Rightarrow> error + int" where
  "signed_value e neg r =
     (let ds = takeWhile (\<lambda>c. is_digit c \<or> c = 95) r;
          rest = dropWhile (\<lambda>c. is_digit c \<or> c = 95) r
      in case digits_value 0 ds of
           None \<Rightarrow> Inl ValueError
         | Some n \<Rightarrow>
             if dropWhile is_space rest \<noteq> [] then Inl ValueError
             else if too_many_digits e ds then Inl ValueError
             else Inr (if neg then - int n else int n))"

definition int_of_str :: "env \<Rightarrow> pystr \<Rightarrow> error + int" where
  "int_of_str e s =
     (case dropWhile is_space (to_ascii e s) of
        [] \<Rightarrow> Inl ValueError
      | c # r \<Rightarrow>
          if c = 43 then signed_value e False r
          else if c = 45 then signed_value e True r
          else signed_value e False (c # r))"

text \<open>\<open>int(x)\<close>: a float is truncated towards zero.\<close>

fun py_int :: "env \<Rightarrow> json \<Rightarrow> error + int" where
  "py_int e (JInt i) = Inr i"
| "py_int e (JBool b) = Inr (if b then 1 else 0)"
| "py_int e (JFloat (Finite q)) = Inr (if 0 \<le> q then \<lfloor>q\<rfloor> else - \<lfloor>- q\<rfloor>)"
| "py_int e (JFloat (Infinity b)) = Inl OverflowError"
| "py_int e (JFloat NaN) = Inl ValueError"
| "py_int e (JStr s) = int_of_str e s"
| "py_int e x = Inl TypeError"

section \<open>Effects\<close>

text \<open>The effects of a run so far: the URLs requested, in order, and the clock readings.\<close>

record world =
  requests :: "pystr list"
  clock_reads :: nat

text \<open>The module-level configuration, lines 46 to 50.\<close>

record config =
  YOUTUBE_API_KEY :: "pystr option"
  NOTION_PAGE_URL :: pystr

definition requests_get :: "env \<Rightarrow> pystr \<Rightarrow> world \<Rightarrow> http_result \<times> world" where
  "requests_get e u w = (http e (length (requests w)) u, w\<lparr>requests := requests w @ [u]\<rparr>)"

text \<open>\<open>raise_for_status\<close> raises on the status codes 400 to 599.\<close>

definition raise_for_status :: "nat \<Rightarrow> bool" where
  "raise_for_status st = (400 \<le> st \<and> st < 600)"

definition datetime_now :: "env \<Rightarrow> world \<Rightarrow> nat \<times> world" where
  "datetime_now e w = (clock e (clock_reads w), w\<lparr>clock_reads := Suc (clock_reads w)\<rparr>)"

section \<open>The response models (lines 24 to 37)\<close>

record Metric =
  views :: "int option"
  avg_retention :: "pyfloat option"
  upload_date :: "pystr option"
  last_updated :: "nat option"

record WorkItem =
  title :: pystr
  channel :: "pystr option"
  youtube_url :: "pystr option"
  thumbnail_url :: "pystr option"
  outcome :: "pystr option"
  metrics :: Metric

text \<open>
  Constructing a model validates the arguments against the declared field types and
  raises \<open>ValidationError\<close> otherwise: a \<open>str\<close> field takes a string, an \<open>Optional\<close> field
  also \<open>None\<close>, an \<open>HttpUrl\<close> field a string that the library accepts as an HTTP URL. A
  validated URL is kept as the string it was given as.
\<close>

fun val_str :: "json \<Rightarrow> error + pystr" where
  "val_str (JStr s) = Inr s"
| "val_str x = Inl ValidationError"

fun val_opt_str :: "json \<Rightarrow> error + pystr option" where
  "val_opt_str JNull = Inr None"
| "val_opt_str (JStr s) = Inr (Some s)"
| "val_opt_str x = Inl ValidationError"

fun val_opt_url :: "env \<Rightarrow> json \<Rightarrow> error + pystr option" where
  "val_opt_url e JNull = Inr None"
| "val_opt_url e (JStr s) = (if url_ok e s then Inr (Some s) else Inl ValidationError)"
| "val_opt_url e x = Inl ValidationError"

definition Metric_new :: "int option \<Rightarrow> pyfloat option \<Rightarrow> json \<Rightarrow> nat \<Rightarrow> error + Metric" where
  "Metric_new v r u t =
     and_then (val_opt_str u) (\<lambda>u'.
       Inr \<lparr>views = v, avg_retention = r, upload_date = u', last_updated = Some t\<rparr>)"

definition WorkItem_new ::
  "env \<Rightarrow> json \<Rightarrow> json \<Rightarrow> json \<Rightarrow> json \<Rightarrow> json \<Rightarrow> Metric \<Rightarrow> error + WorkItem" where
  "WorkItem_new e t c y th oc m =
     and_then (val_str t) (\<lambda>t'.
     and_then (val_opt_str c) (\<lambda>c'.
     and_then (val_opt_url e y) (\<lambda>y'.
     and_then (val_opt_url e th) (\<lambda>th'.
     and_then (val_opt_str oc) (\<lambda>oc'.
       Inr \<lparr>title = t', channel = c', youtube_url = y', thumbnail_url = th', outcome = oc',
            metrics = m\<rparr>)))))"

section \<open>The metadata resolver (\<open>get_youtube_details\<close>)\<close>

text \<open>
  The dict that \<open>get_youtube_details\<close> returns has the five keys \<open>title\<close>, \<open>channel\<close>,
  \<open>thumbnail_url\<close>, \<open>upload_date\<close> and \<open>views\<close>; it is a record with one field per key.
\<close>

record details =
  d_title :: json
  d_channel :: json
  d_thumbnail_url :: json
  d_upload_date :: json
  d_views :: "int option"

text \<open>Lines 123 to 134, on the parsed response \<open>data\<close>. \<open>Inr None\<close> is the return of line 124.\<close>

definition details_of_response :: "env \<Rightarrow> json \<Rightarrow> error + details option" where
  "details_of_response e data =
     and_then (py_get data (lit ''items'') JNull) (\<lambda>its.
     if \<not> truthy its then Inr None
     else
     and_then (py_getitem data (lit ''items'')) (\<lambda>items.
     and_then (py_index0 items) (\<lambda>item.
     and_then (py_get item (lit ''snippet'') (JDict [])) (\<lambda>snippet.
     and_then (py_get item (lit ''statistics'') (JDict [])) (\<lambda>stats.
     and_then (py_get snippet (lit ''title'') JNull) (\<lambda>t.
     and_then (py_get snippet (lit ''channelTitle'') JNull) (\<lambda>c.
     and_then (py_get snippet (lit ''thumbnails'') (JDict [])) (\<lambda>thumbnails.
     and_then (py_get thumbnails (lit ''high'') (JDict [])) (\<lambda>high.
     and_then (py_get high (lit ''url'') JNull) (\<lambda>th.
     and_then (py_get snippet (lit ''publishedAt'') JNull) (\<lambda>u.
     and_then (py_get stats (lit ''viewCount'') JNull) (\<lambda>vc.
     and_then (if truthy vc
               then and_then (py_get stats (lit ''viewCount'') (JInt 0)) (\<lambda>x.
                    and_then (py_int e x) (\<lambda>n. Inr (Some n)))
               else Inr None) (\<lambda>v.
       Inr (Some \<lparr>d_title = t, d_channel = c, d_thumbnail_url = th, d_upload_date = u,
                 d_views = v\<rparr>))))))))))))))"

definition api_url :: "pystr \<Rightarrow> pystr \<Rightarrow> pystr" where
  "api_url video_id key =
     lit ''https://www.googleapis.com/youtube/v3/videos?part=snippet,statistics&id=''
     @ video_id @ lit ''&key='' @ key"

text \<open>The body of the \<open>try\<close> of lines 113 to 134.\<close>

definition fetch_details :: "env \<Rightarrow> pystr \<Rightarrow> pystr \<Rightarrow> world \<Rightarrow> (error + details option) \<times> world" where
  "fetch_details e key video_id w =
     (case requests_get e (api_url video_id key) w of
        (NetworkError, w') \<Rightarrow> (Inl RequestException, w')
      | (Response st txt js, w') \<Rightarrow>
          if raise_for_status st then (Inl HTTPError, w')
          else (case js of
                  None \<Rightarrow> (Inl JSONDecodeError, w')
                | Some data \<Rightarrow> (details_of_response e data, w')))"

text \<open>
  \<open>get_youtube_details\<close>, lines 110 to 136: without a key (unset or empty) it returns
  \<open>None\<close> at once; every exception of the body is turned into \<open>None\<close> by line 135.
\<close>

definition get_youtube_details :: "env \<Rightarrow> config \<Rightarrow> pystr \<Rightarrow> world \<Rightarrow> details option \<times> world" where
  "get_youtube_details e cfg video_id w =
     (case YOUTUBE_API_KEY cfg of
        None \<Rightarrow> (None, w)
      | Some key \<Rightarrow>
          if key = [] then (None, w)
          else (case fetch_details e key video_id w of
                  (Inl err, w') \<Rightarrow> (None, w')
                | (Inr d, w') \<Rightarrow> (d, w')))"

section \<open>The pipeline (\<open>notion_best_work\<close>)\<close>

text \<open>
  Lines 168 and 169: the identifier of a link and, when there is one, its details.
  An identifier is a non-empty string when it is not \<open>None\<close>.
\<close>

definition link_details :: "env \<Rightarrow> config \<Rightarrow> pystr \<Rightarrow> world \<Rightarrow> details option \<times> world" where
  "link_details e cfg l w =
     (case extract_youtube_id (uword e) l of
        None \<Rightarrow> (None, w)
      | Some vid \<Rightarrow> if vid = [] then (None, w) else get_youtube_details e cfg vid w)"

text \<open>
  The model arguments of lines 170 to 182 and 231 to 243, from the details (or their
  absence), the URL, the retention and the clock reading.
\<close>

definition make_item ::
  "env \<Rightarrow> details option \<Rightarrow> pystr \<Rightarrow> pyfloat option \<Rightarrow> nat \<Rightarrow> error + WorkItem" where
  "make_item e details u retention now =
     and_then
       (Metric_new (case details of None \<Rightarrow> None | Some d \<Rightarrow> d_views d) retention
          (case details of None \<Rightarrow> JNull | Some d \<Rightarrow> d_upload_date d) now) (\<lambda>m.
     WorkItem_new e
       (case details of None \<Rightarrow> JStr (lit ''YouTube Video'') | Some d \<Rightarrow> d_title d)
       (case details of None \<Rightarrow> JNull | Some d \<Rightarrow> d_channel d)
       (JStr u)
       (case details of None \<Rightarrow> JNull | Some d \<Rightarrow> d_thumbnail_url d)
       JNull m)"

text \<open>One round of the loop of lines 167 to 183.\<close>

definition build_item :: "env \<Rightarrow> config \<Rightarrow> pystr \<Rightarrow> world \<Rightarrow> (error + WorkItem) \<times> world" where
  "build_item e cfg l w =
     (case link_details e cfg l w of
        (details, w1) \<Rightarrow>
          (case datetime_now e w1 of
             (now, w2) \<Rightarrow> (make_item e details l None now, w2)))"

fun build_results ::
  "env \<Rightarrow> config \<Rightarrow> WorkItem list \<Rightarrow> pystr list \<Rightarrow> world \<Rightarrow> (error + WorkItem list) \<times> world" where
  "build_results e cfg results [] w = (Inr results, w)"
| "build_results e cfg results (l # ls) w =
     (case build_item e cfg l w of
        (Inl err, w') \<Rightarrow> (Inl err, w')
      | (Inr item, w') \<Rightarrow> build_results e cfg (results @ [item]) ls w')"

text \<open>The body of the \<open>try\<close>, lines 147 to 183: the list \<open>results\<close> or the exception raised.\<close>

definition scrape :: "env \<Rightarrow> config \<Rightarrow> world \<Rightarrow> (error + WorkItem list) \<times> world" where
  "scrape e cfg w =
     (case requests_get e (NOTION_PAGE_URL cfg) w of
        (NetworkError, w') \<Rightarrow> (Inl RequestException, w')
      | (Response st html js, w') \<Rightarrow>
          if raise_for_status st then (Inl HTTPError, w')
          else build_results e cfg [] (extract_links html) w')"

text \<open>The outcome note of the placeholders; code point 8212 is the dash of the source.\<close>

definition manual_note :: pystr where
  "manual_note = lit ''N/A '' @ [8212] @ lit '' add manually''"

definition placeholder :: "env \<Rightarrow> config \<Rightarrow> string \<Rightarrow> nat \<Rightarrow> error + WorkItem" where
  "placeholder e cfg name now =
     and_then (Metric_new None None JNull now) (\<lambda>m.
     WorkItem_new e (JStr (lit name)) (JStr (lit ''Channel Name'')) (JStr (NOTION_PAGE_URL cfg))
       JNull (JStr manual_note) m)"

text \<open>Lines 190 to 216. Nothing catches an exception raised here.\<close>

definition fallback :: "env \<Rightarrow> config \<Rightarrow> world \<Rightarrow> (error + WorkItem list) \<times> world" where
  "fallback e cfg w =
     (case datetime_now e w of
        (now, w') \<Rightarrow>
          (and_then (placeholder e cfg ''Case Study Placeholder 1'' now) (\<lambda>p1.
           and_then (placeholder e cfg ''Case Study Placeholder 2'' now) (\<lambda>p2.
           and_then (placeholder e cfg ''Case Study Placeholder 3'' now) (\<lambda>p3.
             Inr [p1, p2, p3]))), w'))"

text \<open>
  \<open>notion_best_work\<close>, lines 142 to 216: the results of the \<open>try\<close> when there are any,
  the placeholders when the list is empty or an exception was caught by line 186.
\<close>

definition notion_best_work :: "env \<Rightarrow> config \<Rightarrow> world \<Rightarrow> (error + WorkItem list) \<times> world" where
  "notion_best_work e cfg w =
     (case scrape e cfg w of
        (Inr results, w') \<Rightarrow> if results \<noteq> [] then (Inr results, w') else fallback e cfg w'
      | (Inl err, w') \<Rightarrow> fallback e cfg w')"

section \<open>The single-URL entry point (\<open>refresh_metrics\<close>)\<close>

record MetricsRequest =
  url :: pystr
  manual_retention_pct :: "pyfloat option"

text \<open>Lines 225 to 243. The exception of line 228 is the response with status 400.\<close>

definition refresh_metrics ::
  "env \<Rightarrow> config \<Rightarrow> MetricsRequest \<Rightarrow> world \<Rightarrow> (error + WorkItem) \<times> world" where
  "refresh_metrics e cfg req w =
     (case extract_youtube_id (uword e) (url req) of
        None \<Rightarrow> (Inl (HTTPException 400 (lit ''Invalid YouTube URL'')), w)
      | Some vid \<Rightarrow>
          if vid = [] then (Inl (HTTPException 400 (lit ''Invalid YouTube URL'')), w)
          else (case get_youtube_details e cfg vid w of
                  (details, w1) \<Rightarrow>
                    (case datetime_now e w1 of
                       (now, w2) \<Rightarrow>
                         (make_item e details (url req) (manual_retention_pct req) now, w2))))"

section \<open>Notation for the statements about items\<close>

text \<open>
  The item of a link without details, the item of a link with details whose fields have
  the declared types, and the placeholder, as records. \<open>details_ok\<close> says that the
  fields of the details have the types the models declare.
\<close>

definition bare_item :: "pystr \<Rightarrow> pyfloat option \<Rightarrow> nat \<Rightarrow> WorkItem" where
  "bare_item u r now =
     \<lparr>title = lit ''YouTube Video'', channel = None, youtube_url = Some u,
      thumbnail_url = None, outcome = None,
      metrics = \<lparr>views = None, avg_retention = r, upload_date = None,
                 last_updated = Some now\<rparr>\<rparr>"

fun str_of :: "json \<Rightarrow> pystr" where
  "str_of (JStr s) = s"
| "str_of x = []"

fun opt_str_of :: "json \<Rightarrow> pystr option" where
  "opt_str_of (JStr s) = Some s"
| "opt_str_of x = None"

fun is_str :: "json \<Rightarrow> bool" where
  "is_str (JStr s) = True"
| "is_str x = False"

fun is_opt_str :: "json \<Rightarrow> bool" where
  "is_opt_str JNull = True"
| "is_opt_str (JStr s) = True"
| "is_opt_str x = False"

fun is_opt_url :: "env \<Rightarrow> json \<Rightarrow> bool" where
  "is_opt_url e JNull = True"
| "is_opt_url e (JStr s) = url_ok e s"
| "is_opt_url e x = False"

definition details_ok :: "env \<Rightarrow> details \<Rightarrow> bool" where
  "details_ok e d =
     (is_str (d_title d) \<and> is_opt_str (d_channel d) \<and> is_opt_url e (d_thumbnail_url d)
      \<and> is_opt_str (d_upload_date d))"

definition enriched_item :: "details \<Rightarrow> pystr \<Rightarrow> pyfloat option \<Rightarrow> nat \<Rightarrow> WorkItem" where
  "enriched_item d u r now =
     \<lparr>title = str_of (d_title d), channel = opt_str_of (d_channel d), youtube_url = Some u,
      thumbnail_url = opt_str_of (d_thumbnail_url d), outcome = None,
      metrics = \<lparr>views = d_views d, avg_retention = r,
                 upload_date = opt_str_of (d_upload_date d), last_updated = Some now\<rparr>\<rparr>"

definition placeholder_item :: "config \<Rightarrow> string \<Rightarrow> nat \<Rightarrow> WorkItem" where
  "placeholder_item cfg name now =
     \<lparr>title = lit name, channel = Some (lit ''Channel Name''),
      youtube_url = Some (NOTION_PAGE_URL cfg), thumbnail_url = None,
      outcome = Some manual_note,
      metrics = \<lparr>views = None, avg_retention = None, upload_date = None,
                 last_updated = Some now\<rparr>\<rparr>"

definition placeholders :: "config \<Rightarrow> nat \<Rightarrow> WorkItem list" where
  "placeholders cfg now =
     [placeholder_item cfg ''Case Study Placeholder 1'' now,
      placeholder_item cfg ''Case Study Placeholder 2'' now,
      placeholder_item cfg ''Case Study Placeholder 3'' now]"

section \<open>Example runs\<close>

text \<open>
  Environments and configurations for the examples: a world in which nothing has happened
  yet, the default page URL of line 49, a key, a network that is down, a validator that
  accepts every non-empty string, Unicode tables that are empty beyond ASCII, and the
  interpreter's default limit of 4300 digits.
\<close>

definition ascii_only :: "nat \<Rightarrow> bool" where
  "ascii_only c = False"

definition w0 :: world where
  "w0 = \<lparr>requests = [], clock_reads = 0\<rparr>"

definition default_page :: pystr where
  "default_page =
     lit ''https://reinvented-salute-989.notion.site/Nikhil-Lohia-2aaf06f4560e8069ac8ff6149020cbe2''"

definition cfg_no_key :: config where
  "cfg_no_key = \<lparr>YOUTUBE_API_KEY = None, NOTION_PAGE_URL = default_page\<rparr>"

definition cfg_key :: config where
  "cfg_key = \<lparr>YOUTUBE_API_KEY = Some (lit ''KEY''), NOTION_PAGE_URL = default_page\<rparr>"

definition env_of :: "(nat \<Rightarrow> pystr \<Rightarrow> http_result) \<Rightarrow> env" where
  "env_of net = \<lparr>http = net, clock = (\<lambda>n. 1000 + n), url_ok = (\<lambda>u. u \<noteq> []),
                 uword = ascii_only, udecimal = (\<lambda>c. None), uspace = ascii_only,
                 max_str_digits = 4300\<rparr>"

definition env_down :: env where
  "env_down = env_of (\<lambda>n u. NetworkError)"


text \<open>\<open>d.get(k)\<close> on the items of a dict.\<close>

definition dict_get :: "(pystr \<times> json) list \<Rightarrow> pystr \<Rightarrow> json" where
  "dict_get kvs k = (case map_of kvs k of None \<Rightarrow> JNull | Some v \<Rightarrow> v)"




definition resp_video :: "(pystr \<times> json) list \<Rightarrow> json" where
  "resp_video stats =
     JDict [(lit ''items'', JList [JDict
       [(lit ''snippet'', JDict
           [(lit ''title'', JStr (lit ''A video'')),
            (lit ''channelTitle'', JStr (lit ''A channel'')),
            (lit ''thumbnails'', JDict [(lit ''high'', JDict
               [(lit ''url'', JStr (lit ''https://i.ytimg.com/vi/abcdef1/hq.jpg''))])]),
            (lit ''publishedAt'', JStr (lit ''2024-01-01T00:00:00Z''))]),
        (lit ''statistics'', JDict stats)]])]"

definition video_details :: "int option \<Rightarrow> details" where
  "video_details v =
     \<lparr>d_title = JStr (lit ''A video''), d_channel = JStr (lit ''A channel''),
      d_thumbnail_url = JStr (lit ''https://i.ytimg.com/vi/abcdef1/hq.jpg''),
      d_upload_date = JStr (lit ''2024-01-01T00:00:00Z''), d_views = v\<rparr>"


definition env_api :: "(pystr \<times> json) list \<Rightarrow> env" where
  "env_api stats = env_of (\<lambda>n u. Response 200 [] (Some (resp_video stats)))"


text \<open>
  \<open>d.get(k, {})\<close> on the items of a dict, when the result is a dict again: the items of
  the value of \<open>k\<close>, no items when \<open>k\<close> is absent, and \<open>None\<close> when the value of \<open>k\<close> is
  not a dict (the next \<open>.get\<close> then raises \<open>AttributeError\<close>).
\<close>

definition get_object :: "(pystr \<times> json) list \<Rightarrow> pystr \<Rightarrow> (pystr \<times> json) list option" where
  "get_object kvs k =
     (case map_of kvs k of
        None \<Rightarrow> Some []
      | Some (JDict d) \<Rightarrow> Some d
      | Some x \<Rightarrow> None)"





text \<open>
  The details that lines 128 to 134 build from the items of the snippet, the items of
  \<open>thumbnails.high\<close> and the views.
\<close>

definition mapped_details ::
  "(pystr \<times> json) list \<Rightarrow> (pystr \<times> json) list \<Rightarrow> int option \<Rightarrow> details" where
  "mapped_details sn hs v =
     \<lparr>d_title = dict_get sn (lit ''title''), d_channel = dict_get sn (lit ''channelTitle''),
      d_thumbnail_url = dict_get hs (lit ''url''),
      d_upload_date = dict_get sn (lit ''publishedAt''), d_views = v\<rparr>"

text \<open>A response whose only item has a snippet with a title and nothing else.\<close>

definition resp_title_only :: json where
  "resp_title_only =
     JDict [(lit ''items'', JList [JDict
       [(lit ''snippet'', JDict [(lit ''title'', JStr (lit ''A video''))])]])]"

definition env_title_only :: env where
  "env_title_only = env_of (\<lambda>n u. Response 200 [] (Some resp_title_only))"

section \<open>Properties of the identifier extraction\<close>

lemma id_at_SomeD:
  assumes "id_at uw m s = Some g"
  shows "\<exists>rest. s = m @ g @ rest \<and> 6 \<le> length g \<and> (\<forall>c\<in>set g. is_tok uw c)"
proof -
  from assms have p: "prefix m s" and g: "g = takeWhile (is_tok uw) (drop (length m) s)"
    and l: "6 \<le> length g"
    by (auto simp: id_at_def match_lit_def Let_def split: if_splits)
  from p have "s = m @ drop (length m) s" by (auto simp: prefix_def)
  then have "s = m @ g @ dropWhile (is_tok uw) (drop (length m) s)"
    using g by simp
  moreover have "\<forall>c\<in>set g. is_tok uw c" using g by (auto dest: set_takeWhileD)
  ultimately show ?thesis using l by blast
qed

lemma search_id_shape:
  assumes "search_id uw m link = Some g"
  shows "marker_token uw m link"
  using assms
proof (induction link)
  case Nil
  then have "id_at uw m [] = Some g" by simp
  from id_at_SomeD [OF this] show ?case
    unfolding marker_token_def by (metis append_Nil)
next
  case (Cons c s)
  show ?case
  proof (cases "id_at uw m (c # s)")
    case (Some g')
    from id_at_SomeD [OF this] show ?thesis
      unfolding marker_token_def by (metis append_Nil)
  next
    case None
    with Cons.prems have "search_id uw m s = Some g" by simp
    then have "marker_token uw m s" by (rule Cons.IH)
    then obtain pre tok rest where "s = pre @ m @ tok @ rest" "6 \<le> length tok"
      "\<forall>c\<in>set tok. is_tok uw c"
      unfolding marker_token_def by blast
    then have "c # s = (c # pre) @ m @ tok @ rest \<and> 6 \<le> length tok \<and> (\<forall>c\<in>set tok. is_tok uw c)"
      by simp
    then show ?thesis unfolding marker_token_def by blast
  qed
qed

lemma id_at_shape:
  assumes "6 \<le> length tok" and "\<forall>c\<in>set tok. is_tok uw c"
  shows "id_at uw m (m @ tok @ rest) \<noteq> None"
proof -
  have "takeWhile (is_tok uw) (tok @ rest) = tok @ takeWhile (is_tok uw) rest"
    using assms(2) by simp
  then show ?thesis using assms(1) by (simp add: id_at_def match_lit_def)
qed

lemma shape_search_id:
  assumes "6 \<le> length tok" and "\<forall>c\<in>set tok. is_tok uw c"
  shows "search_id uw m (pre @ m @ tok @ rest) \<noteq> None"
proof (induction pre)
  case Nil
  have "id_at uw m (m @ tok @ rest) \<noteq> None" using assms by (rule id_at_shape)
  then show ?case by (cases "m @ tok @ rest") auto
next
  case (Cons c pre)
  then show ?case by (auto split: option.splits)
qed

lemma search_id_None_iff: "search_id uw m link = None \<longleftrightarrow> \<not> marker_token uw m link"
proof
  assume "search_id uw m link = None"
  show "\<not> marker_token uw m link"
  proof
    assume "marker_token uw m link"
    then obtain pre tok rest where "link = pre @ m @ tok @ rest" "6 \<le> length tok"
      "\<forall>c\<in>set tok. is_tok uw c"
      unfolding marker_token_def by blast
    then have "search_id uw m link \<noteq> None" using shape_search_id by blast
    with \<open>search_id uw m link = None\<close> show False by simp
  qed
next
  assume "\<not> marker_token uw m link"
  then show "search_id uw m link = None"
    using search_id_shape by (cases "search_id uw m link") auto
qed

text \<open>
  Claim C6 as stated fails. The link below has no \<open>youtu.be/\<close> and no \<open>/embed/\<close> at all,
  and its only query parameter is \<open>rev\<close>, not \<open>v\<close>; the search of line 99 finds \<open>v=\<close> at
  the end of \<open>rev=\<close> and the function returns \<open>abcdefgh\<close>.
\<close>

theorem rev_parameter_yields_identifier:
  "\<not> contains (lit ''youtu.be/'') (lit ''https://example.com/?rev=abcdefgh'')
   \<and> \<not> contains (lit ''/embed/'') (lit ''https://example.com/?rev=abcdefgh'')
   \<and> \<not> contains (lit ''?v='') (lit ''https://example.com/?rev=abcdefgh'')
   \<and> \<not> contains (lit ''&v='') (lit ''https://example.com/?rev=abcdefgh'')
   \<and> extract_youtube_id ascii_only (lit ''https://example.com/?rev=abcdefgh'')
       = Some (lit ''abcdefgh'')"
  by (simp add: extract_youtube_id_def lit_def id_at_def match_lit_def is_tok_def is_word_def)

text \<open>
  Claim C6, amended. \<open>extract_youtube_id\<close> returns \<open>None\<close> exactly on the links in which
  none of the three markers \<open>youtu.be/\<close>, \<open>v=\<close> and \<open>/embed/\<close> stands anywhere, as plain
  text, directly followed by at least 6 word characters or hyphens. The function is
  total, so it returns on every link and no exception leaves it.
\<close>

theorem extract_youtube_id_None_iff:
  "extract_youtube_id uw link = None \<longleftrightarrow>
     \<not> marker_token uw (lit ''youtu.be/'') link
     \<and> \<not> marker_token uw (lit ''v='') link
     \<and> \<not> marker_token uw (lit ''/embed/'') link"
  by (auto simp: extract_youtube_id_def search_id_None_iff [symmetric] split: option.splits)

text \<open>
  At \<open>https://youtu.be/abc\<close> no marker is followed by 6 class characters (the token
  after the short-domain marker has 3), and the result is \<open>None\<close>.
\<close>

theorem extract_youtube_id_None_iff_witness:
  "\<not> marker_token ascii_only (lit ''youtu.be/'') (lit ''https://youtu.be/abc'')
   \<and> \<not> marker_token ascii_only (lit ''v='') (lit ''https://youtu.be/abc'')
   \<and> \<not> marker_token ascii_only (lit ''/embed/'') (lit ''https://youtu.be/abc'')
   \<and> extract_youtube_id ascii_only (lit ''https://youtu.be/abc'') = None"
proof -
  have a: "\<not> marker_token ascii_only (lit ''youtu.be/'') (lit ''https://youtu.be/abc'')"
    unfolding search_id_None_iff [symmetric]
    by (simp add: lit_def id_at_def match_lit_def is_tok_def is_word_def)
  have b: "\<not> marker_token ascii_only (lit ''v='') (lit ''https://youtu.be/abc'')"
    unfolding search_id_None_iff [symmetric]
    by (simp add: lit_def id_at_def match_lit_def is_tok_def is_word_def)
  have c: "\<not> marker_token ascii_only (lit ''/embed/'') (lit ''https://youtu.be/abc'')"
    unfolding search_id_None_iff [symmetric]
    by (simp add: lit_def id_at_def match_lit_def is_tok_def is_word_def)
  show ?thesis
    using a b c extract_youtube_id_None_iff [of ascii_only "lit ''https://youtu.be/abc''"]
    by simp
qed

lemma id_at_marker:
  assumes "6 \<le> length t" and "\<forall>c\<in>set t. is_tok uw c"
  shows "id_at uw m (m @ t) = Some t"
proof -
  have tw: "takeWhile (is_tok uw) t = t" using assms(2) by simp
  show ?thesis using assms(1) by (simp add: id_at_def match_lit_def tw)
qed

lemma id_at_foreign:
  assumes "\<forall>c\<in>set s. is_tok uw c" and "\<exists>c\<in>set m. \<not> is_tok uw c"
  shows "id_at uw m s = None"
proof -
  have "\<not> prefix m s"
  proof
    assume "prefix m s"
    then have "set m \<subseteq> set s" by (rule set_mono_prefix)
    with assms show False by blast
  qed
  then show ?thesis by (simp add: id_at_def match_lit_def)
qed

lemma search_id_foreign:
  assumes "\<forall>c\<in>set s. is_tok uw c" and "\<exists>c\<in>set m. \<not> is_tok uw c"
  shows "search_id uw m s = None"
  using assms(1)
proof (induction s)
  case Nil
  then show ?case using id_at_foreign [of "[]" uw m] assms(2) by simp
next
  case (Cons c s)
  then show ?case using id_at_foreign [of "c # s" uw m] assms(2) by simp
qed

lemma not_tok_dot: "\<not> is_tok uw 46"
  by (simp add: is_tok_def is_word_def)

lemma not_tok_eq: "\<not> is_tok uw 61"
  by (simp add: is_tok_def is_word_def)

lemma short_shape:
  assumes "6 \<le> length t" and "\<forall>c\<in>set t. is_tok uw c"
  shows "search_id uw (lit ''youtu.be/'') (lit ''https://youtu.be/'' @ t) = Some t"
proof -
  have "id_at uw (lit ''youtu.be/'') (lit ''youtu.be/'' @ t) = Some t"
    using assms by (rule id_at_marker)
  then show ?thesis
    by (simp add: lit_def id_at_def match_lit_def)
qed

lemma watch_shape_short:
  assumes "\<forall>c\<in>set t. is_tok uw c"
  shows "search_id uw (lit ''youtu.be/'') (lit ''https://youtube.com/watch?v='' @ t) = None"
proof -
  have "search_id uw (lit ''youtu.be/'') t = None"
    using assms by (rule search_id_foreign) (simp add: lit_def not_tok_dot)
  then show ?thesis
    by (cases t) (simp_all add: lit_def id_at_def match_lit_def)
qed

lemma watch_shape:
  assumes "6 \<le> length t" and "\<forall>c\<in>set t. is_tok uw c"
  shows "search_id uw (lit ''v='') (lit ''https://youtube.com/watch?v='' @ t) = Some t"
proof -
  have "id_at uw (lit ''v='') (lit ''v='' @ t) = Some t"
    using assms by (rule id_at_marker)
  then show ?thesis
    by (simp add: lit_def id_at_def match_lit_def)
qed

lemma embed_shape_short:
  assumes "\<forall>c\<in>set t. is_tok uw c"
  shows "search_id uw (lit ''youtu.be/'') (lit ''https://x/embed/'' @ t) = None"
proof -
  have "search_id uw (lit ''youtu.be/'') t = None"
    using assms by (rule search_id_foreign) (simp add: lit_def not_tok_dot)
  then show ?thesis
    by (cases t) (simp_all add: lit_def id_at_def match_lit_def)
qed

lemma embed_shape_v:
  assumes "\<forall>c\<in>set t. is_tok uw c"
  shows "search_id uw (lit ''v='') (lit ''https://x/embed/'' @ t) = None"
proof -
  have "search_id uw (lit ''v='') t = None"
    using assms by (rule search_id_foreign) (simp add: lit_def not_tok_eq)
  then show ?thesis
    by (cases t) (simp_all add: lit_def id_at_def match_lit_def)
qed

lemma embed_shape:
  assumes "6 \<le> length t" and "\<forall>c\<in>set t. is_tok uw c"
  shows "search_id uw (lit ''/embed/'') (lit ''https://x/embed/'' @ t) = Some t"
proof -
  have "id_at uw (lit ''/embed/'') (lit ''/embed/'' @ t) = Some t"
    using assms by (rule id_at_marker)
  then show ?thesis
    by (simp add: lit_def id_at_def match_lit_def)
qed

text \<open>
  Claim C7. For every token \<open>t\<close> of at least 6 word characters or hyphens, the three
  URLs \<open>https://youtu.be/t\<close>, \<open>https://youtube.com/watch?v=t\<close> and \<open>https://x/embed/t\<close>
  all yield the identifier \<open>t\<close>.
\<close>

theorem extract_youtube_id_three_shapes:
  assumes "6 \<le> length t" and "\<forall>c\<in>set t. is_tok uw c"
  shows "extract_youtube_id uw (lit ''https://youtu.be/'' @ t) = Some t
       \<and> extract_youtube_id uw (lit ''https://youtube.com/watch?v='' @ t) = Some t
       \<and> extract_youtube_id uw (lit ''https://x/embed/'' @ t) = Some t"
  using short_shape [OF assms] watch_shape_short [OF assms(2)] watch_shape [OF assms]
    embed_shape_short [OF assms(2)] embed_shape_v [OF assms(2)] embed_shape [OF assms]
  by (simp add: extract_youtube_id_def)

text \<open>The example of the specification: the token \<open>abcdef1\<close>.\<close>

theorem extract_youtube_id_three_shapes_witness:
  "6 \<le> length (lit ''abcdef1'')
   \<and> extract_youtube_id (\<lambda>_. False) (lit ''https://youtu.be/abcdef1'') = Some (lit ''abcdef1'')
   \<and> extract_youtube_id (\<lambda>_. False) (lit ''https://youtube.com/watch?v=abcdef1'') = Some (lit ''abcdef1'')
   \<and> extract_youtube_id (\<lambda>_. False) (lit ''https://x/embed/abcdef1'') = Some (lit ''abcdef1'')"
proof -
  have len: "6 \<le> length (lit ''abcdef1'')" by (simp add: lit_def)
  have tok: "\<forall>c\<in>set (lit ''abcdef1''). is_tok (\<lambda>_. False) c"
    by (simp add: lit_def is_tok_def is_word_def)
  show ?thesis
    using len extract_youtube_id_three_shapes [OF len tok]
    by (simp add: lit_def)
qed

section \<open>Properties of the link extraction\<close>

lemma yt_loop_filter: "yt_loop acc links = acc @ filter is_youtube (map unescape links)"
  by (induction links arbitrary: acc) (simp_all add: Let_def)

lemma filter_first_seen: "filter P (first_seen xs) = first_seen (filter P xs)"
proof (induction xs)
  case Nil
  show ?case by simp
next
  case (Cons x xs)
  show ?case
  proof (cases "P x")
    case True
    have "filter P (filter (\<lambda>y. y \<noteq> x) (first_seen xs))
        = filter (\<lambda>y. y \<noteq> x) (filter P (first_seen xs))"
      by (simp add: conj_commute)
    with True Cons show ?thesis by simp
  next
    case False
    have "filter P (filter (\<lambda>y. y \<noteq> x) (first_seen xs)) = filter P (first_seen xs)"
      using False by (auto intro: filter_cong)
    with False Cons show ?thesis by simp
  qed
qed

lemma dedupe_loop_first_seen:
  "dedupe_loop seen ordered ls = ordered @ first_seen (filter (\<lambda>l. l \<notin> seen) ls)"
proof (induction ls arbitrary: seen ordered)
  case Nil
  show ?case by simp
next
  case (Cons l ls)
  show ?case
  proof (cases "l \<in> seen")
    case True
    then show ?thesis using Cons.IH [of seen ordered] by simp
  next
    case False
    have "filter (\<lambda>y. y \<noteq> l) (first_seen (filter (\<lambda>l. l \<notin> seen) ls))
        = first_seen (filter (\<lambda>a. a \<notin> insert l seen) ls)"
      by (simp add: filter_first_seen conj_commute)
    then show ?thesis using False Cons.IH [of "insert l seen" "ordered @ [l]"] by simp
  qed
qed

lemma set_first_seen: "set (first_seen xs) = set xs"
  by (induction xs) auto

lemma distinct_first_seen: "distinct (first_seen xs)"
  by (induction xs) (simp_all add: set_first_seen)

lemma extract_links_first_seen:
  "extract_links html = take 3 (first_seen (filter is_youtube (map unescape (findall_href html))))"
  by (simp add: extract_links_def yt_loop_filter dedupe_loop_first_seen)

lemma match_lit_Some_iff: "match_lit p s = Some r \<longleftrightarrow> s = p @ r"
  by (auto simp: match_lit_def prefix_def)

lemma match_lit_None_iff: "match_lit p s = None \<longleftrightarrow> \<not> prefix p s"
  by (simp add: match_lit_def)

lemma href_tail_Some_iff:
  "href_tail a = Some b \<longleftrightarrow>
     (\<exists>body. a = esc_sep @ body @ dquote # b \<and> body \<noteq> [] \<and> dquote \<notin> set body)"
proof
  assume h: "href_tail a = Some b"
  then obtain r where r: "a = esc_sep @ r"
    and ne: "takeWhile (\<lambda>c. c \<noteq> dquote) r \<noteq> []"
    and d: "dropWhile (\<lambda>c. c \<noteq> dquote) r = dquote # b"
    by (auto simp: href_tail_def esc_sep_def match_lit_Some_iff split: option.splits if_splits)
  have "r = takeWhile (\<lambda>c. c \<noteq> dquote) r @ dquote # b"
    using d takeWhile_dropWhile_id [of "\<lambda>c. c \<noteq> dquote" r] by simp
  moreover have "dquote \<notin> set (takeWhile (\<lambda>c. c \<noteq> dquote) r)"
    by (auto dest: set_takeWhileD)
  ultimately show "\<exists>body. a = esc_sep @ body @ dquote # b \<and> body \<noteq> [] \<and> dquote \<notin> set body"
    using r ne by metis
next
  assume "\<exists>body. a = esc_sep @ body @ dquote # b \<and> body \<noteq> [] \<and> dquote \<notin> set body"
  then obtain body where a: "a = esc_sep @ body @ dquote # b" and ne: "body \<noteq> []"
    and nq: "dquote \<notin> set body"
    by blast
  have m: "match_lit [58, backslash, slash, backslash, slash] a = Some (body @ dquote # b)"
    using a by (simp add: match_lit_Some_iff esc_sep_def)
  have nq': "\<forall>x\<in>set body. x \<noteq> dquote" using nq by blast
  have t: "takeWhile (\<lambda>c. c \<noteq> dquote) (body @ dquote # b) = body"
    using nq' by (induction body) simp_all
  have d: "dropWhile (\<lambda>c. c \<noteq> dquote) (body @ dquote # b) = dquote # b"
    using nq' by (induction body) simp_all
  show "href_tail a = Some b"
    using ne by (simp add: href_tail_def m t d match_lit_Some_iff)
qed

lemma href_tail_s: "href_tail (lit ''s'' @ x) = None"
  by (simp add: href_tail_def match_lit_def lit_def)

lemma take_group:
  "take (length (sch @ esc_sep @ body @ dquote # rest) - length rest - 1)
     (sch @ esc_sep @ body @ dquote # rest) = sch @ esc_sep @ body"
  by simp

lemma href_at_unfold:
  "href_at (lit ''href='' @ [dquote] @ lit ''http'' @ r) =
     (case (case match_lit (lit ''s'') r of None \<Rightarrow> None | Some r1 \<Rightarrow> href_tail r1) of
        Some rest \<Rightarrow> Some (take (length (lit ''http'' @ r) - length rest - 1) (lit ''http'' @ r), rest)
      | None \<Rightarrow>
          (case href_tail r of
             None \<Rightarrow> None
           | Some rest \<Rightarrow> Some (take (length (lit ''http'' @ r) - length rest - 1) (lit ''http'' @ r), rest)))"
proof -
  have 1: "match_lit (lit ''href='' @ [dquote]) (lit ''href='' @ [dquote] @ lit ''http'' @ r)
      = Some (lit ''http'' @ r)"
    by (simp add: match_lit_Some_iff)
  have 2: "match_lit (lit ''http'') (lit ''http'' @ r) = Some r"
    by (simp add: match_lit_Some_iff)
  show ?thesis unfolding href_at_def 1 option.case 2 ..
qed

lemma href_at_SomeD:
  assumes "href_at s = Some (g, rest)"
  shows "escaped_url g \<and> s = lit ''href='' @ [dquote] @ g @ dquote # rest"
proof -
  from assms obtain v where v: "s = (lit ''href='' @ [dquote]) @ v"
    by (auto simp: href_at_def match_lit_Some_iff split: option.splits)
  with assms obtain r where r: "v = lit ''http'' @ r"
    by (auto simp: href_at_def match_lit_Some_iff split: option.splits)
  have s: "s = lit ''href='' @ [dquote] @ lit ''http'' @ r" using v r by simp
  from assms [unfolded s href_at_unfold]
  consider (with_s) r1 where "r = lit ''s'' @ r1" "href_tail r1 = Some rest"
      "g = take (length (lit ''http'' @ r) - length rest - 1) (lit ''http'' @ r)"
    | (without_s) "href_tail r = Some rest"
      "g = take (length (lit ''http'' @ r) - length rest - 1) (lit ''http'' @ r)"
    by (auto simp: match_lit_Some_iff split: option.splits)
  then show ?thesis
  proof cases
    case with_s
    from with_s(2) obtain body where b: "r1 = esc_sep @ body @ dquote # rest" "body \<noteq> []"
      "dquote \<notin> set body"
      unfolding href_tail_Some_iff by blast
    have h: "lit ''http'' @ lit ''s'' = lit ''https''" by (simp add: lit_def)
    have vv: "lit ''http'' @ r = lit ''https'' @ esc_sep @ body @ dquote # rest"
      using with_s(1) b(1) h by simp
    have g: "g = lit ''https'' @ esc_sep @ body"
      unfolding with_s(3) vv by (rule take_group)
    have "escaped_url g" unfolding escaped_url_def using g b by blast
    moreover have "s = lit ''href='' @ [dquote] @ g @ dquote # rest"
      using s vv g by simp
    ultimately show ?thesis ..
  next
    case without_s
    from without_s(1) obtain body where b: "r = esc_sep @ body @ dquote # rest" "body \<noteq> []"
      "dquote \<notin> set body"
      unfolding href_tail_Some_iff by blast
    have vv: "lit ''http'' @ r = lit ''http'' @ esc_sep @ body @ dquote # rest"
      using b(1) by simp
    have g: "g = lit ''http'' @ esc_sep @ body"
      unfolding without_s(2) vv by (rule take_group)
    have "escaped_url g" unfolding escaped_url_def using g b by blast
    moreover have "s = lit ''href='' @ [dquote] @ g @ dquote # rest"
      using s vv g by simp
    ultimately show ?thesis ..
  qed
qed

lemma href_at_escaped:
  assumes "escaped_url g"
  shows "href_at (lit ''href='' @ [dquote] @ g @ dquote # rest) = Some (g, rest)"
proof -
  from assms obtain sch body where sch: "sch = lit ''http'' \<or> sch = lit ''https''"
    and g: "g = sch @ esc_sep @ body" and b: "body \<noteq> []" "dquote \<notin> set body"
    unfolding escaped_url_def by blast
  have t: "href_tail (esc_sep @ body @ dquote # rest) = Some rest"
    unfolding href_tail_Some_iff using b by blast
  from sch show ?thesis
  proof
    assume h: "sch = lit ''http''"
    have n: "match_lit (lit ''s'') (esc_sep @ body @ dquote # rest) = None"
      by (simp add: match_lit_def lit_def esc_sep_def)
    have "href_at (lit ''href='' @ [dquote] @ lit ''http'' @ esc_sep @ body @ dquote # rest)
        = Some (lit ''http'' @ esc_sep @ body, rest)"
      unfolding href_at_unfold n option.case t by (simp only: take_group)
    then show ?thesis using g h by simp
  next
    assume h: "sch = lit ''https''"
    have hs: "lit ''https'' = lit ''http'' @ lit ''s''" by (simp add: lit_def)
    have m: "match_lit (lit ''s'') (lit ''s'' @ esc_sep @ body @ dquote # rest)
        = Some (esc_sep @ body @ dquote # rest)"
      by (simp add: match_lit_Some_iff)
    have tk: "take (length (lit ''http'' @ lit ''s'' @ esc_sep @ body @ dquote # rest) - length rest - 1)
        (lit ''http'' @ lit ''s'' @ esc_sep @ body @ dquote # rest)
        = lit ''http'' @ lit ''s'' @ esc_sep @ body"
      by simp
    have "href_at (lit ''href='' @ [dquote] @ lit ''http'' @ lit ''s'' @ esc_sep @ body @ dquote # rest)
        = Some (lit ''http'' @ lit ''s'' @ esc_sep @ body, rest)"
      unfolding href_at_unfold m option.case t by (simp only: tk)
    then show ?thesis using g h hs by simp
  qed
qed

lemma prefix_href_index:
  assumes "prefix (lit ''href='' @ [dquote]) s"
  shows "s ! 5 = dquote"
proof -
  from assms obtain r where "s = (lit ''href='' @ [dquote]) @ r" by (auto simp: prefix_def)
  then show ?thesis by (simp add: lit_def)
qed

lemma href_at_needs_opening:
  assumes "href_at s \<noteq> None"
  shows "prefix (lit ''href='' @ [dquote]) s"
proof -
  from assms obtain g rest where "href_at s = Some (g, rest)" by auto
  then have "s = (lit ''href='' @ [dquote]) @ g @ dquote # rest"
    using href_at_SomeD by fastforce
  then show ?thesis by (metis prefixI)
qed

lemma href_at_before_opening:
  assumes "pre \<noteq> []" and "\<not> contains (lit ''href='' @ [dquote]) pre"
  shows "href_at (pre @ lit ''href='' @ [dquote] @ x) = None"
proof (rule ccontr)
  let ?H = "lit ''href='' @ [dquote]"
  let ?s = "pre @ lit ''href='' @ [dquote] @ x"
  assume "href_at ?s \<noteq> None"
  then have p: "prefix ?H ?s" by (rule href_at_needs_opening)
  show False
  proof (cases "6 \<le> length pre")
    case True
    have "length ?H = 6" by (simp add: lit_def)
    with True p have "prefix ?H pre"
      by (metis prefix_length_prefix prefixI)
    with assms show False by (cases pre) simp_all
  next
    case False
    moreover from assms(1) have "0 < length pre" by simp
    ultimately have "length pre = 1 \<or> length pre = 2 \<or> length pre = 3 \<or> length pre = 4
        \<or> length pre = 5"
      by arith
    then have "?s ! 5 \<noteq> dquote"
      by (auto simp: nth_append lit_def dquote_def)
    with prefix_href_index [OF p] show False by simp
  qed
qed

lemma findall_href_match:
  assumes "escaped_url u"
  shows "findall_href (href_attr u @ post) = u # findall_href post"
proof -
  obtain c s where cs: "href_attr u @ post = c # s"
    by (cases "href_attr u @ post") (simp_all add: href_attr_def lit_def)
  have "href_at (c # s) = Some (u, post)"
    unfolding cs [symmetric] using href_at_escaped [OF assms, of post]
    by (simp add: href_attr_def)
  then have "findall_href (c # s) = u # findall_href post" by simp
  then show ?thesis using cs by simp
qed

lemma findall_href_skip:
  assumes "\<not> (\<exists>u post. c # s = href_attr u @ post \<and> escaped_url u)"
  shows "findall_href (c # s) = findall_href s"
proof -
  have "href_at (c # s) = None"
  proof (rule ccontr)
    assume "href_at (c # s) \<noteq> None"
    then obtain g rest where "href_at (c # s) = Some (g, rest)" by auto
    from href_at_SomeD [OF this] have "c # s = href_attr g @ rest \<and> escaped_url g"
      by (simp add: href_attr_def)
    with assms show False by blast
  qed
  then show ?thesis by simp
qed

lemma findall_href_first:
  assumes "\<not> contains (lit ''href='' @ [dquote]) pre" and "escaped_url u"
  shows "findall_href (pre @ href_attr u @ post) = u # findall_href post"
  using assms(1)
proof (induction pre)
  case Nil
  show ?case using findall_href_match [OF assms(2)] by simp
next
  case (Cons c pre)
  from Cons.prems have np: "\<not> contains (lit ''href='' @ [dquote]) pre" by simp
  have "href_at ((c # pre) @ lit ''href='' @ [dquote] @ u @ dquote # post) = None"
    using Cons.prems by (intro href_at_before_opening) simp_all
  then have "href_at (c # pre @ href_attr u @ post) = None"
    by (simp add: href_attr_def)
  then have "findall_href (c # pre @ href_attr u @ post) = findall_href (pre @ href_attr u @ post)"
    by simp
  with Cons.IH [OF np] show ?case by simp
qed

lemma findall_href_sound:
  "u \<in> set (findall_href html) \<Longrightarrow>
     escaped_url u \<and> (\<exists>pre post. html = pre @ href_attr u @ post)"
proof (induction html rule: findall_href.induct)
  case 1
  then show ?case by simp
next
  case (2 c s)
  show ?case
  proof (cases "href_at (c # s)")
    case None
    with "2.prems" have "u \<in> set (findall_href s)" by simp
    with "2.IH"(1) [OF None] obtain pre post where "escaped_url u" "s = pre @ href_attr u @ post"
      by blast
    then have "escaped_url u \<and> c # s = (c # pre) @ href_attr u @ post" by simp
    then show ?thesis by blast
  next
    case (Some p)
    obtain g rest where p: "p = (g, rest)" by (cases p)
    from Some p have at: "href_at (c # s) = Some (g, rest)" by simp
    from href_at_SomeD [OF at] have g: "escaped_url g"
      and cs: "c # s = [] @ href_attr g @ rest"
      by (simp_all add: href_attr_def)
    from "2.prems" at have "u = g \<or> u \<in> set (findall_href rest)" by simp
    then show ?thesis
    proof
      assume "u = g"
      with g cs show ?thesis by blast
    next
      assume "u \<in> set (findall_href rest)"
      with "2.IH"(2) [OF Some p [symmetric]] obtain pre post where u: "escaped_url u"
        and "rest = pre @ href_attr u @ post"
        by blast
      with cs have "c # s = (href_attr g @ pre) @ href_attr u @ post" by simp
      with u show ?thesis by blast
    qed
  qed
qed

text \<open>
  Claim C4. For every page text the extracted list has at most 3 links and no duplicates,
  and it keeps the order of first occurrence: it is the first 3 entries of the
  deduplication, by first occurrence, of the matched hrefs that pass the platform filter.
  The deduplication loop sends \<open>[A, B, A, C]\<close> to \<open>[A, B, C]\<close>, and a page whose matched
  raw hrefs are \<open>[a, b, a, c]\<close> yields these three links in this order, each in the
  unescaped form in which the extractor returns every link.
\<close>

theorem extract_links_capped_distinct_ordered:
  "length (extract_links html) \<le> 3
   \<and> distinct (extract_links html)
   \<and> extract_links html
       = take 3 (first_seen (filter is_youtube (map unescape (findall_href html))))
   \<and> (A \<noteq> B \<and> A \<noteq> C \<and> B \<noteq> C \<longrightarrow> take 3 (dedupe_loop {} [] [A, B, A, C]) = [A, B, C])
   \<and> (findall_href html = [a, b, a, c]
        \<and> is_youtube (unescape a) \<and> is_youtube (unescape b) \<and> is_youtube (unescape c)
        \<and> unescape a \<noteq> unescape b \<and> unescape a \<noteq> unescape c \<and> unescape b \<noteq> unescape c
      \<longrightarrow> extract_links html = [unescape a, unescape b, unescape c])"
proof -
  have 1: "length (extract_links html) \<le> 3" by (simp add: extract_links_def)
  have 2: "distinct (extract_links html)"
    unfolding extract_links_first_seen by (rule distinct_take) (rule distinct_first_seen)
  have 4: "A \<noteq> B \<and> A \<noteq> C \<and> B \<noteq> C \<longrightarrow> take 3 (dedupe_loop {} [] [A, B, A, C]) = [A, B, C]"
    by simp
  have 5: "findall_href html = [a, b, a, c]
        \<and> is_youtube (unescape a) \<and> is_youtube (unescape b) \<and> is_youtube (unescape c)
        \<and> unescape a \<noteq> unescape b \<and> unescape a \<noteq> unescape c \<and> unescape b \<noteq> unescape c
      \<longrightarrow> extract_links html = [unescape a, unescape b, unescape c]"
    by (auto simp: extract_links_first_seen)
  from 1 2 extract_links_first_seen 4 5 show ?thesis by blast
qed

text \<open>A page with the four hrefs \<open>a, b, a, c\<close>, slashes escaped as the pattern requires.\<close>

theorem extract_links_capped_distinct_ordered_witness:
  "extract_links
     (href_attr (escape (lit ''http://youtu.be/a'')) @ href_attr (escape (lit ''http://youtu.be/b''))
      @ href_attr (escape (lit ''http://youtu.be/a'')) @ href_attr (escape (lit ''http://youtu.be/c'')))
   = [lit ''http://youtu.be/a'', lit ''http://youtu.be/b'', lit ''http://youtu.be/c'']"
proof -
  let ?a = "escape (lit ''http://youtu.be/a'')"
  let ?b = "escape (lit ''http://youtu.be/b'')"
  let ?c = "escape (lit ''http://youtu.be/c'')"
  let ?html = "href_attr ?a @ href_attr ?b @ href_attr ?a @ href_attr ?c"
  have f: "findall_href ?html = [?a, ?b, ?a, ?c]"
    by (simp add: href_attr_def escape_def lit_def href_at_def href_tail_def match_lit_def
        dquote_def backslash_def slash_def)
  have u: "unescape ?a = lit ''http://youtu.be/a''" "unescape ?b = lit ''http://youtu.be/b''"
    "unescape ?c = lit ''http://youtu.be/c''"
    by (simp_all add: escape_def lit_def backslash_def slash_def)
  have y: "is_youtube (lit ''http://youtu.be/a'')" "is_youtube (lit ''http://youtu.be/b'')"
    "is_youtube (lit ''http://youtu.be/c'')"
    by (simp_all add: is_youtube_def lit_def)
  have d: "lit ''http://youtu.be/a'' \<noteq> lit ''http://youtu.be/b''"
    "lit ''http://youtu.be/a'' \<noteq> lit ''http://youtu.be/c''"
    "lit ''http://youtu.be/b'' \<noteq> lit ''http://youtu.be/c''"
    by (simp_all add: lit_def)
  from extract_links_capped_distinct_ordered [of ?html _ _ _ ?a ?b ?c] f u y d
  show ?thesis by simp
qed

text \<open>
  Claim C2 as stated fails: a plain \<open>href="https://www.youtube.com/watch?v=abcdefg"\<close>
  is not matched, because the pattern of line 151 requires a backslash before each slash
  of the scheme separator. The page below yields no link at all.
\<close>

theorem plain_href_not_matched:
  "extract_links
     (lit ''<a '' @ href_attr (lit ''https://www.youtube.com/watch?v=abcdefg'') @ lit ''>video</a>'')
   = []"
  by (simp add: extract_links_def href_attr_def lit_def href_at_def href_tail_def match_lit_def
      dquote_def backslash_def slash_def)

text \<open>
  Claim C2, amended. The page is scanned from the left. Where the text \<open>href="u"\<close>
  stands with a value \<open>u\<close> that starts with \<open>http\<close> or \<open>https\<close> and the escaped separator
  (colon, backslash, slash, backslash, slash), goes on with at least one character and
  has no double quote, \<open>u\<close> is matched and the scan goes on after the closing quote;
  anywhere else the scan moves one character on. So such an href is matched unless it
  begins inside an earlier match, in particular when no \<open>href="\<close> opens before it. Every
  extracted link is the unescaped form of a matched value and contains
  \<open>youtube.com/watch\<close> or \<open>youtu.be/\<close>; the extracted links are the first 3 distinct such
  links. The escaped form of the example href is matched and returned unescaped.
\<close>

theorem extract_links_escaped_hrefs:
  "(\<forall>l\<in>set (extract_links html).
      \<exists>u pre post. html = pre @ href_attr u @ post \<and> escaped_url u \<and> l = unescape u \<and> is_youtube l)
   \<and> findall_href [] = []
   \<and> (escaped_url u \<longrightarrow> findall_href (href_attr u @ post) = u # findall_href post)
   \<and> (\<not> (\<exists>v rest. c # s = href_attr v @ rest \<and> escaped_url v) \<longrightarrow>
        findall_href (c # s) = findall_href s)
   \<and> (\<not> contains (lit ''href='' @ [dquote]) pre \<and> escaped_url u \<longrightarrow>
        findall_href (pre @ href_attr u @ post) = u # findall_href post)
   \<and> extract_links html
       = take 3 (first_seen (filter is_youtube (map unescape (findall_href html))))
   \<and> extract_links
        (lit ''<a '' @ href_attr (escape (lit ''https://www.youtube.com/watch?v=abcdefg''))
         @ lit ''>video</a>'')
       = [lit ''https://www.youtube.com/watch?v=abcdefg'']"
proof -
  have 1: "\<forall>l\<in>set (extract_links html).
      \<exists>u pre post. html = pre @ href_attr u @ post \<and> escaped_url u \<and> l = unescape u \<and> is_youtube l"
  proof
    fix l
    assume "l \<in> set (extract_links html)"
    then have "l \<in> set (first_seen (filter is_youtube (map unescape (findall_href html))))"
      unfolding extract_links_first_seen by (rule in_set_takeD)
    then obtain u where u: "u \<in> set (findall_href html)" and l: "l = unescape u" "is_youtube l"
      by (auto simp: set_first_seen)
    from findall_href_sound [OF u] l
    show "\<exists>u pre post. html = pre @ href_attr u @ post \<and> escaped_url u \<and> l = unescape u \<and> is_youtube l"
      by blast
  qed
  have 2: "escaped_url u \<longrightarrow> findall_href (href_attr u @ post) = u # findall_href post"
    using findall_href_match by blast
  have 3: "\<not> (\<exists>v rest. c # s = href_attr v @ rest \<and> escaped_url v) \<longrightarrow>
        findall_href (c # s) = findall_href s"
    using findall_href_skip by blast
  have 4: "\<not> contains (lit ''href='' @ [dquote]) pre \<and> escaped_url u \<longrightarrow>
        findall_href (pre @ href_attr u @ post) = u # findall_href post"
    using findall_href_first by blast
  have 6: "extract_links
        (lit ''<a '' @ href_attr (escape (lit ''https://www.youtube.com/watch?v=abcdefg''))
         @ lit ''>video</a>'')
       = [lit ''https://www.youtube.com/watch?v=abcdefg'']"
    by (simp add: extract_links_def href_attr_def escape_def lit_def href_at_def href_tail_def
        match_lit_def dquote_def backslash_def slash_def is_youtube_def)
  have 0: "findall_href [] = []" by simp
  from 1 0 2 3 4 extract_links_first_seen 6 show ?thesis by blast
qed

text \<open>
  An escaped href after another attribute in double quotes: no \<open>href="\<close> opens before
  it, and it is matched.
\<close>

theorem extract_links_escaped_hrefs_witness:
  "findall_href
     (lit ''<a class='' @ [dquote] @ lit ''c'' @ [dquote] @ lit '' ''
      @ href_attr (escape (lit ''https://youtu.be/abcdefg'')) @ lit ''>'')
   = [escape (lit ''https://youtu.be/abcdefg'')]"
proof -
  let ?pre = "lit ''<a class='' @ [dquote] @ lit ''c'' @ [dquote] @ lit '' ''"
  have q: "\<not> contains (lit ''href='' @ [dquote]) ?pre" by (simp add: lit_def dquote_def)
  have "escape (lit ''https://youtu.be/abcdefg'')
      = lit ''https'' @ esc_sep @ (lit ''youtu.be'' @ [backslash, slash] @ lit ''abcdefg'')
      \<and> lit ''youtu.be'' @ [backslash, slash] @ lit ''abcdefg'' \<noteq> []
      \<and> dquote \<notin> set (lit ''youtu.be'' @ [backslash, slash] @ lit ''abcdefg'')"
    by (simp add: escape_def lit_def esc_sep_def dquote_def backslash_def slash_def)
  then have e: "escaped_url (escape (lit ''https://youtu.be/abcdefg''))"
    unfolding escaped_url_def by blast
  have p: "findall_href (lit ''>'') = []"
    by (simp add: lit_def href_at_def match_lit_def)
  from extract_links_escaped_hrefs [of _ "escape (lit ''https://youtu.be/abcdefg'')" "lit ''>''"
      _ _ ?pre] q e p
  show ?thesis by simp
qed

section \<open>Properties of the resolver and of the entry points\<close>

lemma val_str_eq: "val_str x = (if is_str x then Inr (str_of x) else Inl ValidationError)"
  by (cases x) simp_all

lemma val_opt_str_eq:
  "val_opt_str x = (if is_opt_str x then Inr (opt_str_of x) else Inl ValidationError)"
  by (cases x) simp_all

lemma val_opt_url_eq:
  "val_opt_url e x = (if is_opt_url e x then Inr (opt_str_of x) else Inl ValidationError)"
  by (cases x) simp_all

lemma make_item_None:
  "make_item e None u r now =
     (if url_ok e u then Inr (bare_item u r now) else Inl ValidationError)"
  by (simp add: make_item_def Metric_new_def WorkItem_new_def and_then_def bare_item_def)

lemma make_item_Some:
  "make_item e (Some d) u r now =
     (if details_ok e d \<and> url_ok e u then Inr (enriched_item d u r now)
      else Inl ValidationError)"
  by (simp add: make_item_def Metric_new_def WorkItem_new_def and_then_def enriched_item_def
      details_ok_def val_str_eq val_opt_str_eq val_opt_url_eq)

lemma placeholder_eq:
  "placeholder e cfg name now =
     (if url_ok e (NOTION_PAGE_URL cfg) then Inr (placeholder_item cfg name now)
      else Inl ValidationError)"
  by (simp add: placeholder_def Metric_new_def WorkItem_new_def and_then_def
      placeholder_item_def)

lemma fallback_eq:
  "fallback e cfg w =
     (if url_ok e (NOTION_PAGE_URL cfg) then Inr (placeholders cfg (clock e (clock_reads w)))
      else Inl ValidationError,
      w\<lparr>clock_reads := Suc (clock_reads w)\<rparr>)"
  by (simp add: fallback_def datetime_now_def placeholder_eq and_then_def placeholders_def)

lemma get_youtube_details_no_key:
  "YOUTUBE_API_KEY cfg = None \<or> YOUTUBE_API_KEY cfg = Some [] \<Longrightarrow>
     get_youtube_details e cfg vid w = (None, w)"
  by (auto simp: get_youtube_details_def)

text \<open>
  Claim C8. Without a credential (the key unset or empty) \<open>get_youtube_details\<close> returns
  \<open>None\<close> and leaves the world as it was; without a credential or without an identifier
  for the link, the lookup of lines 168 and 169 returns \<open>None\<close> and the list of outbound
  requests is unchanged: no request is made.
\<close>

theorem resolver_silent_without_key_or_id:
  "(YOUTUBE_API_KEY cfg = None \<or> YOUTUBE_API_KEY cfg = Some [] \<longrightarrow>
      get_youtube_details e cfg vid w = (None, w))
   \<and> (YOUTUBE_API_KEY cfg = None \<or> YOUTUBE_API_KEY cfg = Some []
        \<or> extract_youtube_id (uword e) l = None \<longrightarrow>
      link_details e cfg l w = (None, w) \<and> requests (snd (link_details e cfg l w)) = requests w)"
  by (auto simp: link_details_def get_youtube_details_no_key split: option.splits)

text \<open>
  Claim C9. On a URL without identifier \<open>refresh_metrics\<close> raises the HTTP exception with
  status 400: the request is rejected, no item is returned (in particular no placeholder),
  and nothing was requested from the network.
\<close>

theorem refresh_metrics_rejects:
  "extract_youtube_id (uword e) (url req) = None \<Longrightarrow>
     refresh_metrics e cfg req w = (Inl (HTTPException 400 (lit ''Invalid YouTube URL'')), w)
     \<and> (\<forall>item. fst (refresh_metrics e cfg req w) \<noteq> Inr item)"
  by (simp add: refresh_metrics_def)

lemma search_id_length:
  "search_id uw m u = Some g \<Longrightarrow> 6 \<le> length g"
proof (induction u)
  case Nil
  then have "id_at uw m [] = Some g" by simp
  from id_at_SomeD [OF this] show ?case by blast
next
  case (Cons c s)
  show ?case
  proof (cases "id_at uw m (c # s)")
    case None
    with Cons show ?thesis by simp
  next
    case (Some g')
    with Cons.prems have "id_at uw m (c # s) = Some g" by simp
    from id_at_SomeD [OF this] show ?thesis by blast
  qed
qed

lemma extract_youtube_id_nonempty:
  assumes "extract_youtube_id uw u = Some vid"
  shows "vid \<noteq> []"
proof -
  from assms have "6 \<le> length vid"
    by (auto simp: extract_youtube_id_def split: option.splits dest: search_id_length)
  then show ?thesis by auto
qed

lemma refresh_metrics_Some:
  assumes "extract_youtube_id (uword e) (url req) = Some vid"
  shows "refresh_metrics e cfg req w =
     (make_item e (fst (get_youtube_details e cfg vid w)) (url req) (manual_retention_pct req)
        (clock e (clock_reads (snd (get_youtube_details e cfg vid w)))),
      (snd (get_youtube_details e cfg vid w))
        \<lparr>clock_reads := Suc (clock_reads (snd (get_youtube_details e cfg vid w)))\<rparr>)"
  using assms extract_youtube_id_nonempty [OF assms]
  by (simp add: refresh_metrics_def datetime_now_def split: prod.splits)

lemma make_item_retention:
  "make_item e details u r now = Inr item \<Longrightarrow> avg_retention (metrics item) = r"
  by (cases details)
     (auto simp: make_item_None make_item_Some bare_item_def enriched_item_def split: if_splits)

lemma make_item_url:
  "make_item e details u r now = Inr item \<Longrightarrow> youtube_url item = Some u"
  by (cases details)
     (auto simp: make_item_None make_item_Some bare_item_def enriched_item_def split: if_splits)

text \<open>
  Claim C10. When the URL has an identifier, every item \<open>refresh_metrics\<close> returns carries
  the retention of the request unchanged in \<open>avg_retention\<close>. An item is returned both
  without details (for a URL the response model accepts, as every URL of a validated
  request is) and with details whose fields have the declared types.
\<close>

theorem refresh_metrics_retention:
  assumes "extract_youtube_id (uword e) (url req) = Some vid"
  shows "(\<forall>item w'. refresh_metrics e cfg req w = (Inr item, w') \<longrightarrow>
            avg_retention (metrics item) = manual_retention_pct req)
       \<and> (url_ok e (url req) \<and> fst (get_youtube_details e cfg vid w) = None \<longrightarrow>
            fst (refresh_metrics e cfg req w)
              = Inr (bare_item (url req) (manual_retention_pct req)
                      (clock e (clock_reads (snd (get_youtube_details e cfg vid w))))))
       \<and> (\<forall>d. url_ok e (url req) \<and> fst (get_youtube_details e cfg vid w) = Some d
              \<and> details_ok e d \<longrightarrow>
            fst (refresh_metrics e cfg req w)
              = Inr (enriched_item d (url req) (manual_retention_pct req)
                      (clock e (clock_reads (snd (get_youtube_details e cfg vid w))))))"
  by (auto simp: refresh_metrics_Some [OF assms] make_item_None make_item_Some
      dest: make_item_retention)


lemma build_item_url:
  "build_item e cfg l w = (Inr item, w') \<Longrightarrow> youtube_url item = Some l"
  by (auto simp: build_item_def datetime_now_def split: prod.splits dest: make_item_url)

lemma build_results_urls:
  "build_results e cfg acc ls w = (Inr items, w') \<Longrightarrow>
     \<exists>new. items = acc @ new \<and> map youtube_url new = map Some ls"
proof (induction ls arbitrary: acc w)
  case Nil
  then show ?case by simp
next
  case (Cons l ls)
  from Cons.prems obtain item w1 where b: "build_item e cfg l w = (Inr item, w1)"
    and r: "build_results e cfg (acc @ [item]) ls w1 = (Inr items, w')"
    by (auto split: prod.splits sum.splits)
  from Cons.IH [OF r] obtain new where "items = (acc @ [item]) @ new"
    "map youtube_url new = map Some ls"
    by blast
  with build_item_url [OF b] have "items = acc @ (item # new)
      \<and> map youtube_url (item # new) = map Some (l # ls)"
    by simp
  then show ?case by blast
qed



text \<open>The definitions that evaluating an example run unfolds.\<close>

lemmas ev_defs = lit_def href_attr_def escape_def href_at_def href_tail_def match_lit_def
  dquote_def backslash_def slash_def is_youtube_def extract_links_def
  extract_youtube_id_def id_at_def is_tok_def is_word_def
  env_of_def env_down_def cfg_key_def cfg_no_key_def w0_def default_page_def
  link_details_def get_youtube_details_def fetch_details_def requests_get_def
  raise_for_status_def datetime_now_def refresh_metrics_def make_item_None make_item_Some
  bare_item_def and_then_def

text \<open>
  Claim C8 at two runs: a link with an identifier and no key, and a key with a link
  without identifier.
\<close>

theorem resolver_silent_without_key_or_id_witness:
  "link_details env_down cfg_no_key (lit ''https://youtu.be/abcdef1'') w0 = (None, w0)
   \<and> link_details env_down cfg_key (lit ''https://example.com/'') w0 = (None, w0)"
proof -
  have k: "YOUTUBE_API_KEY cfg_no_key = None" by (simp add: cfg_no_key_def)
  have i: "extract_youtube_id (uword env_down) (lit ''https://example.com/'') = None"
    by (simp add: ev_defs)
  from resolver_silent_without_key_or_id [of cfg_no_key env_down _ w0 "lit ''https://youtu.be/abcdef1''"]
    resolver_silent_without_key_or_id [of cfg_key env_down _ w0 "lit ''https://example.com/''"]
    k i
  show ?thesis by simp
qed

text \<open>Claim C9 at a URL without identifier.\<close>

theorem refresh_metrics_rejects_witness:
  "refresh_metrics env_down cfg_key
     \<lparr>url = lit ''https://example.com/'', manual_retention_pct = None\<rparr> w0
   = (Inl (HTTPException 400 (lit ''Invalid YouTube URL'')), w0)"
proof -
  have i: "extract_youtube_id (uword env_down)
      (url \<lparr>url = lit ''https://example.com/'', manual_retention_pct = None\<rparr>) = None"
    by (simp add: ev_defs)
  from refresh_metrics_rejects [OF i] show ?thesis by simp
qed

text \<open>
  Claim C10 at a run where the network is down, so that the URL has an identifier and no
  details: the retention 42 of the request is in the item.
\<close>

theorem refresh_metrics_retention_witness:
  "fst (refresh_metrics env_down cfg_key
     \<lparr>url = lit ''https://youtu.be/abcdef1'', manual_retention_pct = Some (Finite 42)\<rparr> w0)
   = Inr (bare_item (lit ''https://youtu.be/abcdef1'') (Some (Finite 42)) 1000)"
proof -
  let ?req = "\<lparr>url = lit ''https://youtu.be/abcdef1'', manual_retention_pct = Some (Finite 42)\<rparr>"
  have i: "extract_youtube_id (uword env_down) (url ?req) = Some (lit ''abcdef1'')"
    by (simp add: ev_defs)
  have d: "get_youtube_details env_down cfg_key (lit ''abcdef1'') w0
      = (None, w0\<lparr>requests := [api_url (lit ''abcdef1'') (lit ''KEY'')]\<rparr>)"
    by (simp add: get_youtube_details_def fetch_details_def requests_get_def env_down_def
        env_of_def cfg_key_def w0_def lit_def)
  have u: "url_ok env_down (url ?req)" by (simp add: env_down_def env_of_def lit_def)
  from refresh_metrics_retention [OF i, of cfg_key w0] d u
  show ?thesis by (simp add: env_down_def env_of_def w0_def)
qed


lemma scrape_failed:
  assumes "http e (length (requests w)) (NOTION_PAGE_URL cfg) = NetworkError
     \<or> (\<exists>st html js. http e (length (requests w)) (NOTION_PAGE_URL cfg) = Response st html js
           \<and> (raise_for_status st \<or> extract_links html = []))"
  shows "notion_best_work e cfg w = fallback e cfg (w\<lparr>requests := requests w @ [NOTION_PAGE_URL cfg]\<rparr>)"
  using assms
  by (auto simp: notion_best_work_def scrape_def requests_get_def)

text \<open>
  Claim C1, amended. When the page fetch fails (the request fails or the status is an
  error status) or the page yields no link, and the configured page URL is one the
  response model accepts, the pipeline returns exactly 3 placeholders. Each refers to the
  configured page URL and carries the fixed outcome note; \<open>views\<close>, \<open>avg_retention\<close> and
  \<open>upload_date\<close> are \<open>None\<close>, and \<open>last_updated\<close> is the time of the fallback.
\<close>

theorem fallback_placeholders:
  assumes "url_ok e (NOTION_PAGE_URL cfg)"
    and "http e (length (requests w)) (NOTION_PAGE_URL cfg) = NetworkError
     \<or> (\<exists>st html js. http e (length (requests w)) (NOTION_PAGE_URL cfg) = Response st html js
           \<and> (raise_for_status st \<or> extract_links html = []))"
  shows "fst (notion_best_work e cfg w) = Inr (placeholders cfg (clock e (clock_reads w)))
       \<and> length (placeholders cfg (clock e (clock_reads w))) = 3
       \<and> (\<forall>p\<in>set (placeholders cfg (clock e (clock_reads w))).
             youtube_url p = Some (NOTION_PAGE_URL cfg) \<and> outcome p = Some manual_note
             \<and> thumbnail_url p = None
             \<and> views (metrics p) = None \<and> avg_retention (metrics p) = None
             \<and> upload_date (metrics p) = None
             \<and> last_updated (metrics p) = Some (clock e (clock_reads w)))"
  using assms(1)
  by (simp add: scrape_failed [OF assms(2)] fallback_eq placeholders_def placeholder_item_def)

text \<open>
  Claim C1 as stated fails. With the network down the three placeholders are returned,
  but their metrics are not all null: \<open>last_updated\<close> is set in each (line 198). And with
  an empty string configured as page URL the placeholders cannot be constructed
  (\<open>youtube_url\<close> is an \<open>HttpUrl\<close> field), so the endpoint ends in the validation error.
\<close>

theorem placeholders_carry_last_updated:
  "fst (notion_best_work env_down cfg_no_key w0) = Inr (placeholders cfg_no_key 1000)
   \<and> last_updated (metrics (placeholder_item cfg_no_key ''Case Study Placeholder 1'' 1000))
       = Some 1000
   \<and> fst (notion_best_work env_down (cfg_no_key\<lparr>NOTION_PAGE_URL := []\<rparr>) w0)
       = Inl ValidationError"
  by (simp add: notion_best_work_def scrape_def requests_get_def fallback_eq env_down_def
      env_of_def cfg_no_key_def w0_def default_page_def lit_def placeholders_def
      placeholder_item_def)

text \<open>Claim C1, amended, at the run with the network down and the default page URL.\<close>

theorem fallback_placeholders_witness:
  "fst (notion_best_work env_down cfg_no_key w0) = Inr (placeholders cfg_no_key 1000)"
proof -
  have u: "url_ok env_down (NOTION_PAGE_URL cfg_no_key)"
    by (simp add: env_down_def env_of_def cfg_no_key_def default_page_def lit_def)
  have n: "http env_down (length (requests w0)) (NOTION_PAGE_URL cfg_no_key) = NetworkError"
    by (simp add: env_down_def env_of_def)
  from fallback_placeholders [OF u disjI1 [OF n]] show ?thesis
    by (simp add: env_down_def env_of_def w0_def)
qed


lemma get_youtube_details_response:
  assumes "YOUTUBE_API_KEY cfg = Some key" and "key \<noteq> []"
    and "http e (length (requests w)) (api_url vid key) = Response st txt (Some data)"
    and "\<not> raise_for_status st"
  shows "fst (get_youtube_details e cfg vid w) =
     (case details_of_response e data of Inl err \<Rightarrow> None | Inr d \<Rightarrow> d)"
  using assms
  by (simp add: get_youtube_details_def fetch_details_def requests_get_def split: sum.splits)

lemma py_get_non_dict: "(\<forall>d. x \<noteq> JDict d) \<Longrightarrow> py_get x k dflt = Inl AttributeError"
  by (cases x) simp_all

lemma py_get_dict_get: "py_get (JDict ob) k JNull = Inr (dict_get ob k)"
  by (simp add: dict_get_def)

lemma py_get_object_Some:
  "get_object kvs k = Some ob \<Longrightarrow> py_get (JDict kvs) k (JDict []) = Inr (JDict ob)"
  by (auto simp: get_object_def split: option.splits json.splits)

lemma py_get_object_None:
  "get_object kvs k = None \<Longrightarrow>
     \<exists>x. py_get (JDict kvs) k (JDict []) = Inr x \<and> (\<forall>d. x \<noteq> JDict d)"
  by (auto simp: get_object_def split: option.splits json.splits)

lemma details_of_response_item:
  assumes "map_of dd (lit ''items'') = Some (JList (JDict it # others))"
  shows "details_of_response e (JDict dd) =
     (case get_object it (lit ''snippet'') of
        None \<Rightarrow> Inl AttributeError
      | Some sn \<Rightarrow>
     (case get_object sn (lit ''thumbnails'') of
        None \<Rightarrow> Inl AttributeError
      | Some ts \<Rightarrow>
     (case get_object ts (lit ''high'') of
        None \<Rightarrow> Inl AttributeError
      | Some hs \<Rightarrow>
     (case get_object it (lit ''statistics'') of
        None \<Rightarrow> Inl AttributeError
      | Some ss \<Rightarrow>
          if truthy (dict_get ss (lit ''viewCount''))
          then (case py_int e (dict_get ss (lit ''viewCount'')) of
                  Inl err \<Rightarrow> Inl err
                | Inr n \<Rightarrow>
                    Inr (Some (mapped_details sn hs (Some n))))
          else Inr (Some (mapped_details sn hs None))))))"
proof -
  have items: "py_get (JDict dd) (lit ''items'') JNull = Inr (JList (JDict it # others))"
    "py_getitem (JDict dd) (lit ''items'') = Inr (JList (JDict it # others))"
    using assms by simp_all
  note unfold = details_of_response_def items and_then_def
  show ?thesis
  proof (cases "get_object it (lit ''snippet'')")
    case None
    from py_get_object_None [OF None] obtain x
      where x: "py_get (JDict it) (lit ''snippet'') (JDict []) = Inr x" "\<forall>d. x \<noteq> JDict d"
      by blast
    obtain y where y: "py_get (JDict it) (lit ''statistics'') (JDict []) = Inr y" by simp
    show ?thesis
      unfolding unfold by (simp add: None x y py_get_non_dict [OF x(2)] del: py_get.simps)
  next
    case sn: (Some sn)
    note g1 = py_get_object_Some [OF sn]
    obtain y where y: "py_get (JDict it) (lit ''statistics'') (JDict []) = Inr y" by simp
    show ?thesis
    proof (cases "get_object sn (lit ''thumbnails'')")
      case None
      from py_get_object_None [OF None] obtain x
        where x: "py_get (JDict sn) (lit ''thumbnails'') (JDict []) = Inr x" "\<forall>d. x \<noteq> JDict d"
        by blast
      show ?thesis
        unfolding unfold
        by (simp add: sn None g1 y py_get_dict_get x(1) py_get_non_dict [OF x(2)]
            del: py_get.simps)
    next
      case ts: (Some ts)
      note g2 = py_get_object_Some [OF ts]
      show ?thesis
      proof (cases "get_object ts (lit ''high'')")
        case None
        from py_get_object_None [OF None] obtain x
          where x: "py_get (JDict ts) (lit ''high'') (JDict []) = Inr x" "\<forall>d. x \<noteq> JDict d"
          by blast
        show ?thesis
          unfolding unfold
          by (simp add: sn ts None g1 g2 y py_get_dict_get x(1) py_get_non_dict [OF x(2)]
              del: py_get.simps)
      next
        case hs: (Some hs)
        note g3 = py_get_object_Some [OF hs]
        show ?thesis
        proof (cases "get_object it (lit ''statistics'')")
          case None
          from py_get_object_None [OF None] obtain x
            where x: "py_get (JDict it) (lit ''statistics'') (JDict []) = Inr x"
              "\<forall>d. x \<noteq> JDict d"
            by blast
          show ?thesis
            unfolding unfold
            by (simp add: sn ts hs None g1 g2 g3 py_get_dict_get x(1)
                py_get_non_dict [OF x(2)] del: py_get.simps)
        next
          case ss: (Some ss)
          note g4 = py_get_object_Some [OF ss]
          have vc: "py_get (JDict ss) (lit ''viewCount'') (JInt 0)
              = Inr (if truthy (dict_get ss (lit ''viewCount''))
                     then dict_get ss (lit ''viewCount'') else
                     (case map_of ss (lit ''viewCount'') of None \<Rightarrow> JInt 0 | Some v \<Rightarrow> v))"
            by (simp add: dict_get_def split: option.splits)
          show ?thesis
            unfolding unfold
            by (simp add: sn ts hs ss g1 g2 g3 g4 py_get_dict_get vc mapped_details_def
                del: py_get.simps
                split: sum.splits)
        qed
      qed
    qed
  qed
qed

lemma details_of_response_non_dict:
  assumes "map_of dd (lit ''items'') = Some (JList (item # others))"
    and "\<forall>it. item \<noteq> JDict it"
  shows "details_of_response e (JDict dd) = Inl AttributeError"
proof -
  have items: "py_get (JDict dd) (lit ''items'') JNull = Inr (JList (item # others))"
    "py_getitem (JDict dd) (lit ''items'') = Inr (JList (item # others))"
    using assms(1) by simp_all
  show ?thesis
    unfolding details_of_response_def items and_then_def
    by (simp add: py_get_non_dict [OF assms(2)] del: py_get.simps)
qed

lemma int_of_str_abc: "py_int e (JStr (lit ''abc'')) = Inl ValueError"
  by (simp add: int_of_str_def to_ascii_def signed_value_def is_space_def is_digit_def lit_def)

text \<open>
  Claim C5, amended. Let the key be configured, the call succeed and the response have
  at least one item. When the first item is an object in which \<open>snippet\<close>, \<open>statistics\<close>,
  \<open>snippet.thumbnails\<close> and \<open>snippet.thumbnails.high\<close> are each absent (read as empty) or
  an object, the resolver maps the fields of the snippet into the details. A view count
  that is absent or empty (any value Python reads as false) gives \<open>views = None\<close> with the
  other fields mapped. A view count that \<open>int\<close> converts gives that integer. A view count
  on which \<open>int\<close> raises, as on the string \<open>abc\<close>, makes the resolver return \<open>None\<close>: the
  handler of line 135 drops the other fields as well. When the first item is not an
  object, or one of the four is present and not an object, the resolver returns \<open>None\<close>.
\<close>

theorem resolver_maps_first_item:
  assumes "YOUTUBE_API_KEY cfg = Some key" and "key \<noteq> []"
    and "http e (length (requests w)) (api_url vid key) = Response st txt (Some (JDict dd))"
    and "\<not> raise_for_status st"
    and "map_of dd (lit ''items'') = Some (JList (item # others))"
  shows "(\<forall>it sn ss ts hs.
            item = JDict it
            \<and> get_object it (lit ''snippet'') = Some sn
            \<and> get_object it (lit ''statistics'') = Some ss
            \<and> get_object sn (lit ''thumbnails'') = Some ts
            \<and> get_object ts (lit ''high'') = Some hs \<longrightarrow>
            (\<not> truthy (dict_get ss (lit ''viewCount'')) \<longrightarrow>
               fst (get_youtube_details e cfg vid w) = Some (mapped_details sn hs None))
            \<and> (\<forall>n. truthy (dict_get ss (lit ''viewCount''))
                     \<and> py_int e (dict_get ss (lit ''viewCount'')) = Inr n \<longrightarrow>
               fst (get_youtube_details e cfg vid w) = Some (mapped_details sn hs (Some n)))
            \<and> (\<forall>err. truthy (dict_get ss (lit ''viewCount''))
                     \<and> py_int e (dict_get ss (lit ''viewCount'')) = Inl err \<longrightarrow>
               fst (get_youtube_details e cfg vid w) = None))
       \<and> (\<forall>it. item = JDict it
              \<and> (get_object it (lit ''snippet'') = None
                  \<or> get_object it (lit ''statistics'') = None
                  \<or> (\<exists>sn. get_object it (lit ''snippet'') = Some sn
                        \<and> (get_object sn (lit ''thumbnails'') = None
                            \<or> (\<exists>ts. get_object sn (lit ''thumbnails'') = Some ts
                                  \<and> get_object ts (lit ''high'') = None)))) \<longrightarrow>
            fst (get_youtube_details e cfg vid w) = None)
       \<and> ((\<forall>it. item \<noteq> JDict it) \<longrightarrow> fst (get_youtube_details e cfg vid w) = None)
       \<and> dict_get [] (lit ''viewCount'') = JNull \<and> \<not> truthy JNull \<and> \<not> truthy (JStr [])
       \<and> py_int e (JStr (lit ''abc'')) = Inl ValueError"
proof -
  note g = get_youtube_details_response [OF assms(1-4)]
  have A: "\<forall>it sn ss ts hs.
            item = JDict it
            \<and> get_object it (lit ''snippet'') = Some sn
            \<and> get_object it (lit ''statistics'') = Some ss
            \<and> get_object sn (lit ''thumbnails'') = Some ts
            \<and> get_object ts (lit ''high'') = Some hs \<longrightarrow>
            (\<not> truthy (dict_get ss (lit ''viewCount'')) \<longrightarrow>
               fst (get_youtube_details e cfg vid w) = Some (mapped_details sn hs None))
            \<and> (\<forall>n. truthy (dict_get ss (lit ''viewCount''))
                     \<and> py_int e (dict_get ss (lit ''viewCount'')) = Inr n \<longrightarrow>
               fst (get_youtube_details e cfg vid w) = Some (mapped_details sn hs (Some n)))
            \<and> (\<forall>err. truthy (dict_get ss (lit ''viewCount''))
                     \<and> py_int e (dict_get ss (lit ''viewCount'')) = Inl err \<longrightarrow>
               fst (get_youtube_details e cfg vid w) = None)"
  proof (intro allI impI)
    fix it sn ss ts hs
    assume h: "item = JDict it
            \<and> get_object it (lit ''snippet'') = Some sn
            \<and> get_object it (lit ''statistics'') = Some ss
            \<and> get_object sn (lit ''thumbnails'') = Some ts
            \<and> get_object ts (lit ''high'') = Some hs"
    with assms(5) have i: "map_of dd (lit ''items'') = Some (JList (JDict it # others))" by simp
    show "(\<not> truthy (dict_get ss (lit ''viewCount'')) \<longrightarrow>
               fst (get_youtube_details e cfg vid w) = Some (mapped_details sn hs None))
            \<and> (\<forall>n. truthy (dict_get ss (lit ''viewCount''))
                     \<and> py_int e (dict_get ss (lit ''viewCount'')) = Inr n \<longrightarrow>
               fst (get_youtube_details e cfg vid w) = Some (mapped_details sn hs (Some n)))
            \<and> (\<forall>err. truthy (dict_get ss (lit ''viewCount''))
                     \<and> py_int e (dict_get ss (lit ''viewCount'')) = Inl err \<longrightarrow>
               fst (get_youtube_details e cfg vid w) = None)"
      using h by (simp add: g details_of_response_item [OF i])
  qed
  have B: "\<forall>it. item = JDict it
              \<and> (get_object it (lit ''snippet'') = None
                  \<or> get_object it (lit ''statistics'') = None
                  \<or> (\<exists>sn. get_object it (lit ''snippet'') = Some sn
                        \<and> (get_object sn (lit ''thumbnails'') = None
                            \<or> (\<exists>ts. get_object sn (lit ''thumbnails'') = Some ts
                                  \<and> get_object ts (lit ''high'') = None)))) \<longrightarrow>
            fst (get_youtube_details e cfg vid w) = None"
  proof (intro allI impI)
    fix it
    assume h: "item = JDict it
              \<and> (get_object it (lit ''snippet'') = None
                  \<or> get_object it (lit ''statistics'') = None
                  \<or> (\<exists>sn. get_object it (lit ''snippet'') = Some sn
                        \<and> (get_object sn (lit ''thumbnails'') = None
                            \<or> (\<exists>ts. get_object sn (lit ''thumbnails'') = Some ts
                                  \<and> get_object ts (lit ''high'') = None))))"
    with assms(5) have i: "map_of dd (lit ''items'') = Some (JList (JDict it # others))" by simp
    from h show "fst (get_youtube_details e cfg vid w) = None"
      by (auto simp: g details_of_response_item [OF i] split: option.splits)
  qed
  have C: "(\<forall>it. item \<noteq> JDict it) \<longrightarrow> fst (get_youtube_details e cfg vid w) = None"
    by (simp add: g details_of_response_non_dict [OF assms(5)])
  have D: "dict_get [] (lit ''viewCount'') = JNull \<and> \<not> truthy JNull \<and> \<not> truthy (JStr [])"
    by (simp add: dict_get_def)
  from A B C D int_of_str_abc show ?thesis by blast
qed

text \<open>
  Claim C5 as stated fails: on a response whose view count is \<open>abc\<close> the resolver
  returns no details at all, while the same response without view count gives the
  details with \<open>views = None\<close>.
\<close>

theorem non_numeric_views_lose_details:
  "fst (get_youtube_details (env_api [(lit ''viewCount'', JStr (lit ''abc''))]) cfg_key
          (lit ''abcdef1'') w0) = None
   \<and> fst (get_youtube_details (env_api []) cfg_key (lit ''abcdef1'') w0)
       = Some (video_details None)"
  by (simp add: get_youtube_details_def fetch_details_def requests_get_def env_api_def
      env_of_def cfg_key_def w0_def raise_for_status_def resp_video_def
      details_of_response_def and_then_def int_of_str_def to_ascii_def signed_value_def
      is_space_def is_digit_def video_details_def lit_def)

text \<open>
  Two runs: a response with the view count \<open>12345\<close>, and a response whose item has a
  snippet with a title and neither thumbnails nor statistics.
\<close>

theorem resolver_maps_first_item_witness:
  "fst (get_youtube_details (env_api [(lit ''viewCount'', JStr (lit ''12345''))]) cfg_key
          (lit ''abcdef1'') w0) = Some (video_details (Some 12345))
   \<and> fst (get_youtube_details env_title_only cfg_key (lit ''abcdef1'') w0)
       = Some \<lparr>d_title = JStr (lit ''A video''), d_channel = JNull, d_thumbnail_url = JNull,
               d_upload_date = JNull, d_views = None\<rparr>"
proof -
  let ?ss = "[(lit ''viewCount'', JStr (lit ''12345''))]"
  let ?hs = "[(lit ''url'', JStr (lit ''https://i.ytimg.com/vi/abcdef1/hq.jpg''))]"
  let ?ts = "[(lit ''high'', JDict ?hs)]"
  let ?sn = "[(lit ''title'', JStr (lit ''A video'')),
              (lit ''channelTitle'', JStr (lit ''A channel'')),
              (lit ''thumbnails'', JDict ?ts),
              (lit ''publishedAt'', JStr (lit ''2024-01-01T00:00:00Z''))]"
  let ?it = "[(lit ''snippet'', JDict ?sn), (lit ''statistics'', JDict ?ss)]"
  let ?dd = "[(lit ''items'', JList [JDict ?it])]"
  let ?e = "env_api ?ss"
  let ?sn' = "[(lit ''title'', JStr (lit ''A video''))]"
  let ?it' = "[(lit ''snippet'', JDict ?sn')]"
  let ?dd' = "[(lit ''items'', JList [JDict ?it'])]"
  have k: "YOUTUBE_API_KEY cfg_key = Some (lit ''KEY'')" "lit ''KEY'' \<noteq> []"
    by (simp_all add: cfg_key_def lit_def)
  have r1: "http ?e (length (requests w0)) (api_url (lit ''abcdef1'') (lit ''KEY''))
      = Response 200 [] (Some (JDict ?dd))"
    by (simp add: env_api_def env_of_def resp_video_def)
  have r2: "http env_title_only (length (requests w0)) (api_url (lit ''abcdef1'') (lit ''KEY''))
      = Response 200 [] (Some (JDict ?dd'))"
    by (simp add: env_title_only_def env_of_def resp_title_only_def)
  have st: "\<not> raise_for_status 200" by (simp add: raise_for_status_def)
  have i1: "map_of ?dd (lit ''items'') = Some (JList (JDict ?it # []))" by simp
  have i2: "map_of ?dd' (lit ''items'') = Some (JList (JDict ?it' # []))" by simp
  have o: "get_object ?it (lit ''snippet'') = Some ?sn"
    "get_object ?it (lit ''statistics'') = Some ?ss"
    "get_object ?sn (lit ''thumbnails'') = Some ?ts"
    "get_object ?ts (lit ''high'') = Some ?hs"
    by (simp_all add: get_object_def lit_def)
  have o2: "get_object ?it' (lit ''snippet'') = Some ?sn'"
    "get_object ?it' (lit ''statistics'') = Some []"
    "get_object ?sn' (lit ''thumbnails'') = Some []"
    "get_object [] (lit ''high'') = Some []"
    by (simp_all add: get_object_def lit_def)
  have p: "truthy (dict_get ?ss (lit ''viewCount''))"
    "py_int ?e (dict_get ?ss (lit ''viewCount'')) = Inr 12345"
    by (simp_all add: dict_get_def int_of_str_def to_ascii_def signed_value_def
        too_many_digits_def is_space_def is_digit_def lit_def)
  have p2: "\<not> truthy (dict_get [] (lit ''viewCount''))" by (simp add: dict_get_def)
  from resolver_maps_first_item [OF k r1 st i1] o p
  have a: "fst (get_youtube_details ?e cfg_key (lit ''abcdef1'') w0)
      = Some (mapped_details ?sn ?hs (Some 12345))"
    by blast
  from resolver_maps_first_item [OF k r2 st i2] o2 p2
  have b: "fst (get_youtube_details env_title_only cfg_key (lit ''abcdef1'') w0)
      = Some (mapped_details ?sn' [] None)"
    by blast
  from a b show ?thesis
    by (simp add: mapped_details_def video_details_def dict_get_def lit_def)
qed










end
